theory Spec2Isabelle
  imports Main "HOL-Library.AList"
begin

section \<open>Python values\<close>

text \<open>
  A Python \<open>str\<close> is a sequence of Unicode code points; the generated names use code
  points far beyond one byte, so a string is modelled as the list of its code points
  (\<open>ord\<close> is the identity on an element). \<open>ustr\<close> turns an ASCII literal into
  such a list.
\<close>

type_synonym pystr = "nat list"

definition ustr :: "string \<Rightarrow> pystr" where
  "ustr s = map of_char s"

text \<open>The exceptions the three modules can raise.\<close>

datatype error =
    NotImplementedError
  | AssertionError
  | KeyError
  | IndexError
  | TypeError
  | AttributeError
  | ValueError
  | PyException string

text \<open>
  The generic value tree produced by the YAML reader. Dictionary keys are the hashable
  scalars; a dictionary is an association list in insertion order (Python dictionaries
  keep it, and the output depends on it). A float carries its \<open>str()\<close> text, and
  \<open>YOther\<close>/\<open>KOther\<close> stand for objects of any other type (a date, bytes), again with
  their \<open>str()\<close> text. Values are trees: no node is shared between two places, so an
  in-place update of a node is the functional update of the one place holding it.
\<close>

datatype pykey =
    KStr pystr
  | KInt int
  | KBool bool
  | KFloat pystr
  | KNull
  | KOther pystr

datatype pyval =
    YStr pystr
  | YInt int
  | YBool bool
  | YFloat pystr
  | YNull
  | YList "pyval list"
  | YDict "(pykey \<times> pyval) list"
  | YOther pystr

text \<open>Using a value as a dictionary key: lists and dictionaries are unhashable.\<close>

fun key_of :: "pyval \<Rightarrow> error + pykey" where
  "key_of (YStr s) = Inr (KStr s)"
| "key_of (YInt i) = Inr (KInt i)"
| "key_of (YBool b) = Inr (KBool b)"
| "key_of (YFloat t) = Inr (KFloat t)"
| "key_of YNull = Inr KNull"
| "key_of (YList xs) = Inl TypeError"
| "key_of (YDict kvs) = Inl TypeError"
| "key_of (YOther t) = Inr (KOther t)"

text \<open>
  Dictionaries are association lists with \<open>AList.update\<close> for \<open>d[k] = v\<close> (the value
  is replaced in place when the key is there, the entry is appended otherwise) and
  \<open>map_of\<close> for lookups. \<open>d[k]\<close> and \<open>del d[k]\<close> raise \<open>KeyError\<close> on a missing key.
\<close>

definition dict_getitem :: "('k \<times> 'v) list \<Rightarrow> 'k \<Rightarrow> error + 'v" where
  "dict_getitem d k = (case map_of d k of None \<Rightarrow> Inl KeyError | Some v \<Rightarrow> Inr v)"

definition dict_delitem :: "('k \<times> 'v) list \<Rightarrow> 'k \<Rightarrow> error + ('k \<times> 'v) list" where
  "dict_delitem d k = (if k \<in> fst ` set d then Inr (AList.delete k d) else Inl KeyError)"

subsection \<open>Decimal and hexadecimal text of integers\<close>

definition digit_char :: "nat \<Rightarrow> nat" where
  "digit_char d = (if d < 10 then 48 + d else 87 + d)"

function dec_digits :: "nat \<Rightarrow> pystr" where
  "dec_digits n = (if n < 10 then [digit_char n] else dec_digits (n div 10) @ [digit_char (n mod 10)])"
  by pat_completeness auto
termination
  by (relation "measure id") auto

function hex_digits :: "nat \<Rightarrow> pystr" where
  "hex_digits n = (if n < 16 then [digit_char n] else hex_digits (n div 16) @ [digit_char (n mod 16)])"
  by pat_completeness auto
termination
  by (relation "measure id") auto

declare dec_digits.simps [simp del]
declare hex_digits.simps [simp del]

text \<open>\<open>str(i)\<close> for an integer, and the format specifications \<open>04x\<close> and \<open>08x\<close>.\<close>

definition str_int :: "int \<Rightarrow> pystr" where
  "str_int i = (if i < 0 then 45 # dec_digits (nat (- i)) else dec_digits (nat i))"

definition format_x :: "nat \<Rightarrow> nat \<Rightarrow> pystr" where
  "format_x width n = (let ds = hex_digits n in replicate (width - length ds) 48 @ ds)"

definition str_bool :: "bool \<Rightarrow> pystr" where
  "str_bool b = (if b then ustr ''True'' else ustr ''False'')"


text \<open>\<open>sep.join(parts)\<close>.\<close>

fun join :: "pystr \<Rightarrow> pystr list \<Rightarrow> pystr" where
  "join sep [] = []"
| "join sep [x] = x"
| "join sep (x # y # ys) = x @ sep @ join sep (y # ys)"

section \<open>obfuscate.py: the escaped encoder\<close>

definition ord_to_unicode :: "nat \<Rightarrow> error + pystr" where
  "ord_to_unicode codepoint =
     (if \<not> codepoint < 2 ^ 32 then Inl AssertionError
      else if codepoint < 2 ^ 16 then Inr ([92, 117] @ format_x 4 codepoint)
      else Inr ([92, 85] @ format_x 8 codepoint))"

fun str_to_unicode_escapes :: "pystr \<Rightarrow> error + pystr" where
  "str_to_unicode_escapes [] = Inr []"
| "str_to_unicode_escapes (c # cs) =
     (case ord_to_unicode c of
        Inl e \<Rightarrow> Inl e
      | Inr x \<Rightarrow>
          (case str_to_unicode_escapes cs of
             Inl e \<Rightarrow> Inl e
           | Inr xs \<Rightarrow> Inr (x @ xs)))"

text \<open>
  \<open>do\<close> and \<open>do_dict_inner\<close>, with the two \<open>map\<close>s written as the recursions
  \<open>do_list\<close> and \<open>do_items\<close>. The \<open>isinstance\<close> chain of \<open>do_dict_inner\<close> asks for
  \<open>int\<close> without asking for \<open>bool\<close> first, and a Python \<open>bool\<close> is an \<open>int\<close>: a
  boolean key takes the integer branch, where the f-string renders it as \<open>True\<close> or
  \<open>False\<close>. The \<open>except\<close> clauses only attach a note and raise the same exception again.
  Code points: 34 is the double quote, 58 the colon, 32 the space, 44 the comma,
  91 and 93 the brackets, 123 and 125 the braces, 92 the backslash.
\<close>

fun do :: "pyval \<Rightarrow> error + pystr"
  and do_list :: "pyval list \<Rightarrow> error + pystr list"
  and do_items :: "(pykey \<times> pyval) list \<Rightarrow> error + pystr list"
  and do_dict_inner :: "pykey \<Rightarrow> pyval \<Rightarrow> error + pystr"
where
  "do (YStr s) =
     (case str_to_unicode_escapes s of
        Inl e \<Rightarrow> Inl e
      | Inr b \<Rightarrow> Inr ([34] @ b @ [34]))"
| "do (YList xs) =
     (case do_list xs of
        Inl e \<Rightarrow> Inl e
      | Inr parts \<Rightarrow> Inr ([91] @ join [44] parts @ [93]))"
| "do YNull = Inr (ustr ''null'')"
| "do (YBool b) = Inr (if b then ustr ''true'' else ustr ''false'')"
| "do (YInt i) = Inr (str_int i)"
| "do (YFloat t) = Inr t"
| "do (YDict kvs) =
     (case do_items kvs of
        Inl e \<Rightarrow> Inl e
      | Inr parts \<Rightarrow> Inr ([123] @ join [44] parts @ [125]))"
| "do (YOther t) = Inl NotImplementedError"
| "do_list [] = Inr []"
| "do_list (x # xs) =
     (case do x of
        Inl e \<Rightarrow> Inl e
      | Inr s \<Rightarrow>
          (case do_list xs of
             Inl e \<Rightarrow> Inl e
           | Inr ss \<Rightarrow> Inr (s # ss)))"
| "do_items [] = Inr []"
| "do_items (kv # kvs) =
     (case do_dict_inner (fst kv) (snd kv) of
        Inl e \<Rightarrow> Inl e
      | Inr s \<Rightarrow>
          (case do_items kvs of
             Inl e \<Rightarrow> Inl e
           | Inr ss \<Rightarrow> Inr (s # ss)))"
| "do_dict_inner (KStr k) v =
     (case str_to_unicode_escapes k of
        Inl e \<Rightarrow> Inl e
      | Inr kb \<Rightarrow>
          (case do v of
             Inl e \<Rightarrow> Inl e
           | Inr vs \<Rightarrow> Inr ([34] @ kb @ [34, 58] @ vs)))"
| "do_dict_inner (KInt i) v =
     (case do v of
        Inl e \<Rightarrow> Inl e
      | Inr vs \<Rightarrow> Inr (str_int i @ [58, 32] @ vs))"
| "do_dict_inner (KBool b) v =
     (case do v of
        Inl e \<Rightarrow> Inl e
      | Inr vs \<Rightarrow> Inr (str_bool b @ [58, 32] @ vs))"
| "do_dict_inner KNull v =
     (case do v of
        Inl e \<Rightarrow> Inl e
      | Inr vs \<Rightarrow> Inr ([34, 34, 58] @ vs))"
| "do_dict_inner (KFloat t) v = Inl NotImplementedError"
| "do_dict_inner (KOther t) v = Inl NotImplementedError"

definition to_obfuscated_yaml :: "pyval \<Rightarrow> error + pystr" where
  "to_obfuscated_yaml obj = do obj"

section \<open>apmodel.py: options\<close>

text \<open>
  \<open>WrappedWeightedOption\<close> (declared in ap-obfuscate.py) is a subclass of
  \<open>WeightedOption\<close>: it has the \<open>weights\<close> field and inherits \<open>output\<close>. The
  annotation of \<open>weights\<close> says \<open>dict[str, int]\<close>, but \<open>parse\<close> stores whatever
  value the document gives a label, so a weight is a \<open>pyval\<close>.
\<close>

type_synonym weights = "(pystr \<times> pyval) list"

datatype APOption =
    WeightedOption weights
  | WrappedWeightedOption weights APOption pystr "(pystr \<times> pystr) list"
  | CustomOption pyval

fun is_WeightedOption :: "APOption \<Rightarrow> bool" where
  "is_WeightedOption (WeightedOption w) = True"
| "is_WeightedOption (WrappedWeightedOption w orig orig_name names) = True"
| "is_WeightedOption (CustomOption r) = False"

fun weights_of :: "APOption \<Rightarrow> weights" where
  "weights_of (WeightedOption w) = w"
| "weights_of (WrappedWeightedOption w orig orig_name names) = w"
| "weights_of (CustomOption r) = []"






definition WeightedOption_output :: "weights \<Rightarrow> error + pyval" where
  "WeightedOption_output ws =
     (if length ws = 1 then Inr (YStr (fst (ws ! 0)))
      else if length ws = 0 then Inl (PyException ''Empty weigthed option'')
      else Inr (YDict (map (\<lambda>kv. (KStr (fst kv), snd kv)) ws)))"

fun Option_output :: "APOption \<Rightarrow> error + pyval" where
  "Option_output (WeightedOption w) = WeightedOption_output w"
| "Option_output (WrappedWeightedOption w orig orig_name names) = WeightedOption_output w"
| "Option_output (CustomOption r) = Inr r"

section \<open>ap-obfuscate.py: the name generator\<close>

text \<open>
  \<open>WEIRD_CHARS\<close> with \<open>DEBUG = False\<close>: the space, the no-break space, the
  Unicode space separators that are not commented out, and the five zero-width
  characters, in the order of the source.
\<close>

definition WEIRD_CHARS :: pystr where
  "WEIRD_CHARS =
     [0x20, 0xa0,
      0x2000, 0x2001, 0x2002, 0x2003, 0x2004, 0x2005, 0x2006, 0x2007, 0x2008, 0x2009, 0x200a,
      0x2028, 0x2029, 0x202f, 0x205f, 0x3000,
      0x180e, 0x200b, 0x200d, 0x2060, 0xfeff]"

text \<open>
  The module \<open>random\<close> is the only source of randomness, and it is global state. It is
  modelled as the infinite sequence of the raw draws still to come: \<open>randint\<close> and
  \<open>choice\<close> each take the next draw and reduce it into their range, so every
  behaviour of the random source is some sequence. \<open>randint\<close> raises \<open>ValueError\<close> on
  an empty range and \<open>choice\<close> raises \<open>IndexError\<close> on an empty sequence.
\<close>

type_synonym rng = "nat \<Rightarrow> nat"

definition draw :: "rng \<Rightarrow> nat \<times> rng" where
  "draw r = (r 0, \<lambda>i. r (Suc i))"

definition randint :: "int \<Rightarrow> int \<Rightarrow> rng \<Rightarrow> error + (int \<times> rng)" where
  "randint a b r =
     (if b < a then Inl ValueError
      else Inr (a + int (fst (draw r) mod nat (b - a + 1)), snd (draw r)))"

definition choice :: "'a list \<Rightarrow> rng \<Rightarrow> error + ('a \<times> rng)" where
  "choice seq r =
     (if seq = [] then Inl IndexError
      else Inr (seq ! (fst (draw r) mod length seq), snd (draw r)))"

text \<open>
  \<open>generate_new_name\<close>: the argument of \<open>range\<close> is evaluated first, so the length is
  drawn before the characters. \<open>choices n\<close> is the generator expression run \<open>n\<close>
  times; \<open>range\<close> of a negative number is empty.
\<close>

fun choices :: "nat \<Rightarrow> rng \<Rightarrow> error + (pystr \<times> rng)" where
  "choices 0 r = Inr ([], r)"
| "choices (Suc n) r =
     (case choice WEIRD_CHARS r of
        Inl e \<Rightarrow> Inl e
      | Inr cr \<Rightarrow>
          (case choices n (snd cr) of
             Inl e \<Rightarrow> Inl e
           | Inr csr \<Rightarrow> Inr (fst cr # fst csr, snd csr)))"

definition generate_new_name :: "int \<Rightarrow> int \<Rightarrow> rng \<Rightarrow> error + (pystr \<times> rng)" where
  "generate_new_name minlen maxlen r =
     (case randint minlen maxlen r of
        Inl e \<Rightarrow> Inl e
      | Inr nr \<Rightarrow> choices (nat (fst nr)) (snd nr))"

text \<open>
  \<open>generate_unique_name\<close>: \<open>unique_name_loop budget\<close> is the \<open>for\<close> loop with
  \<open>budget\<close> iterations left; falling out of the loop raises. \<open>inside\<close> is whatever
  container the caller passes (the keys of a dictionary, a set, a list); only
  membership is asked of it.
\<close>

fun unique_name_loop :: "nat \<Rightarrow> pystr set \<Rightarrow> int \<Rightarrow> int \<Rightarrow> rng \<Rightarrow> error + (pystr \<times> rng)" where
  "unique_name_loop 0 inside minlen maxlen r = Inl (PyException ''Unable to generate unique name'')"
| "unique_name_loop (Suc budget) inside minlen maxlen r =
     (case generate_new_name minlen maxlen r of
        Inl e \<Rightarrow> Inl e
      | Inr nr \<Rightarrow>
          (if fst nr \<notin> inside then Inr nr
           else unique_name_loop budget inside minlen maxlen (snd nr)))"

definition generate_unique_name :: "pystr set \<Rightarrow> int \<Rightarrow> int \<Rightarrow> rng \<Rightarrow> error + (pystr \<times> rng)" where
  "generate_unique_name inside minlen maxlen r = unique_name_loop 100000 inside minlen maxlen r"

text \<open>
  \<open>generate_multiple_unique_names\<close> takes \<open>minlen\<close> and \<open>maxlen\<close> but calls
  \<open>generate_unique_name(names)\<close> with the defaults 20 and 50.
\<close>

fun multiple_names_loop :: "nat \<Rightarrow> pystr list \<Rightarrow> rng \<Rightarrow> error + (pystr list \<times> rng)" where
  "multiple_names_loop 0 names r = Inr (names, r)"
| "multiple_names_loop (Suc n) names r =
     (case generate_unique_name (set names) 20 50 r of
        Inl e \<Rightarrow> Inl e
      | Inr nr \<Rightarrow> multiple_names_loop n (names @ [fst nr]) (snd nr))"

definition generate_multiple_unique_names ::
    "nat \<Rightarrow> int \<Rightarrow> int \<Rightarrow> rng \<Rightarrow> error + (pystr list \<times> rng)" where
  "generate_multiple_unique_names count minlen maxlen r = multiple_names_loop count [] r"

text \<open>\<open>list_extend_beginning\<close>: \<open>insert(0, elem)\<close> for each element of the reversed list.\<close>

definition list_extend_beginning :: "'a list \<Rightarrow> 'a list \<Rightarrow> 'a list" where
  "list_extend_beginning base_list prepend_with =
     foldl (\<lambda>base elem. elem # base) base_list (rev prepend_with)"

section \<open>The typed model: triggers, games, the root\<close>

text \<open>
  \<open>Trigger.parse\<close> stores \<open>option_result\<close> and \<open>options\<close> as the document gives
  them, so both are generic values.
\<close>

record Trigger =
  option_category :: pystr
  option_name :: pystr
  option_result :: pyval
  options :: pyval

type_synonym Options = "(pystr \<times> APOption) list"

record Game =
  name :: pystr
  triggers :: "Trigger list"
  options :: Options

record Requires =
  version :: pystr

record Root =
  name :: pystr
  description :: pystr
  requires :: Requires
  games :: "Game list"
  game_weights :: "(pykey \<times> pyval) list"
  triggers :: "Trigger list"

fun game_by_name_list :: "Game list \<Rightarrow> pystr \<Rightarrow> error + Game" where
  "game_by_name_list [] game_name = Inl IndexError"
| "game_by_name_list (game # rest) game_name =
     (if Game.name game = game_name then Inr game else game_by_name_list rest game_name)"

definition game_by_name :: "Root \<Rightarrow> pystr \<Rightarrow> error + Game" where
  "game_by_name self game_name = game_by_name_list (games self) game_name"

text \<open>
  \<open>game_by_name\<close> returns a reference into \<open>root.games\<close>; \<open>store_game\<close> writes the
  mutated game back to the place the reference came from, the first game of that name.
\<close>

fun store_game_list :: "Game list \<Rightarrow> pystr \<Rightarrow> Game \<Rightarrow> Game list" where
  "store_game_list [] game_name game' = []"
| "store_game_list (game # rest) game_name game' =
     (if Game.name game = game_name then game' # rest
      else game # store_game_list rest game_name game')"

definition store_game :: "Root \<Rightarrow> pystr \<Rightarrow> Game \<Rightarrow> Root" where
  "store_game self game_name game' = self\<lparr>games := store_game_list (games self) game_name game'\<rparr>"

section \<open>ap-obfuscate.py: wrapping\<close>

definition WrappedWeightedOption_wrap :: "pystr \<Rightarrow> APOption \<Rightarrow> APOption" where
  "WrappedWeightedOption_wrap orig_name option =
     WrappedWeightedOption (weights_of option) option orig_name
       (map (\<lambda>k. (k, k)) (map fst (weights_of option)))"

record ContextExtra =
  game_name :: pystr
  options :: Options
  triggers :: "Trigger list"

definition ContextExtra_new :: "pystr \<Rightarrow> ContextExtra" where
  "ContextExtra_new g = \<lparr>game_name = g, ContextExtra.options = [], ContextExtra.triggers = []\<rparr>"

definition generate_option ::
    "ContextExtra \<Rightarrow> APOption \<Rightarrow> rng \<Rightarrow> error + ((pystr \<times> APOption) \<times> ContextExtra \<times> rng)" where
  "generate_option self option r =
     (case generate_unique_name (set (map fst (ContextExtra.options self))) 20 50 r of
        Inl e \<Rightarrow> Inl e
      | Inr nr \<Rightarrow>
          Inr ((fst nr, option),
               self\<lparr>ContextExtra.options := AList.update (fst nr) option (ContextExtra.options self)\<rparr>,
               snd nr))"

definition generate_option_weight_names :: "nat \<Rightarrow> rng \<Rightarrow> error + (pystr list \<times> rng)" where
  "generate_option_weight_names num r = generate_multiple_unique_names num 20 50 r"

text \<open>
  The inner loop of \<open>create_wrapper_options\<close> over \<open>orig_option.weights.items()\<close>.
  Its state is \<open>wrapped_weight_names\<close>, the wrapper's \<open>weights\<close>, the wrapper's
  \<open>wrapped_weights_names\<close>, the trigger list and the random source.
\<close>

record wrap_state =
  wrapped_weight_names :: "pystr set"
  new_weights :: weights
  new_names :: "(pystr \<times> pystr) list"
  new_triggers :: "Trigger list"
  random :: rng

fun wrap_weights_loop :: "pystr \<Rightarrow> pystr \<Rightarrow> pystr \<Rightarrow> weights \<Rightarrow> wrap_state \<Rightarrow> error + wrap_state" where
  "wrap_weights_loop g orig_name wrapped_name [] st = Inr st"
| "wrap_weights_loop g orig_name wrapped_name (item # rest) st =
     (case generate_unique_name (wrapped_weight_names st) 20 50 (random st) of
        Inl e \<Rightarrow> Inl e
      | Inr nr \<Rightarrow>
          wrap_weights_loop g orig_name wrapped_name rest
            \<lparr>wrapped_weight_names = insert (fst nr) (wrapped_weight_names st),
             new_weights = AList.update (fst nr) (snd item) (new_weights st),
             new_names = AList.update (fst item) (fst nr) (new_names st),
             new_triggers = new_triggers st @
               [\<lparr>option_category = g, option_name = wrapped_name,
                 option_result = YStr (fst nr),
                 Trigger.options = YDict [(KStr g, YDict [(KStr orig_name, YStr (fst item))])]\<rparr>],
             random = snd nr\<rparr>)"

text \<open>
  The outer loop over \<open>orig_options.items()\<close>. \<open>generate_option\<close> stores the wrapper
  object under its new name, and the statements after it fill that same object, so
  once the inner loop is done the entry of \<open>self.options\<close> holds the filled wrapper.
\<close>

record wrapper_state =
  extra :: ContextExtra
  real_to_wrapped :: "(pystr \<times> pystr) list"
  wrapper_triggers :: "Trigger list"
  wrapper_random :: rng

fun create_wrapper_loop :: "Options \<Rightarrow> wrapper_state \<Rightarrow> error + wrapper_state" where
  "create_wrapper_loop [] st = Inr st"
| "create_wrapper_loop (item # rest) st =
     (if \<not> is_WeightedOption (snd item) then create_wrapper_loop rest st
      else
        (case generate_option (extra st) (WrappedWeightedOption_wrap (fst item) (snd item))
                (wrapper_random st) of
           Inl e \<Rightarrow> Inl e
         | Inr res \<Rightarrow>
             (case wrap_weights_loop (game_name (extra st)) (fst item) (fst (fst res))
                     (weights_of (snd item))
                     \<lparr>wrapped_weight_names = {}, new_weights = [], new_names = [],
                      new_triggers = wrapper_triggers st, random = snd (snd res)\<rparr> of
                Inl e \<Rightarrow> Inl e
              | Inr ws \<Rightarrow>
                  (if length (new_weights ws) \<noteq> length (weights_of (snd item)) then Inl AssertionError
                   else if new_weights ws = [] then Inl AssertionError
                   else create_wrapper_loop rest
                      \<lparr>extra = (fst (snd res))\<lparr>ContextExtra.options :=
                           AList.update (fst (fst res))
                             (WrappedWeightedOption (new_weights ws) (snd item) (fst item) (new_names ws))
                             (ContextExtra.options (fst (snd res)))\<rparr>,
                       real_to_wrapped = AList.update (fst item) (fst (fst res)) (real_to_wrapped st),
                       wrapper_triggers = new_triggers ws,
                       wrapper_random = random ws\<rparr>))))"

definition create_wrapper_options ::
    "ContextExtra \<Rightarrow> Options \<Rightarrow> rng \<Rightarrow> error + wrapper_state" where
  "create_wrapper_options self orig_options r =
     create_wrapper_loop orig_options
       \<lparr>extra = self, real_to_wrapped = [], wrapper_triggers = [], wrapper_random = r\<rparr>"

section \<open>ap-obfuscate.py: the obfuscation pass\<close>

text \<open>
  The loop of \<open>obfuscate_game_wrap\<close> that replaces each wrapped option of the game by
  its wrapper: \<open>del game.options[real_name]\<close>, then
  \<open>game.options[wrapped_name] = extra_games.options[wrapped_name]\<close>.
\<close>

fun replace_options_loop :: "(pystr \<times> pystr) list \<Rightarrow> Options \<Rightarrow> Options \<Rightarrow> error + Options" where
  "replace_options_loop [] extra_options game_options = Inr game_options"
| "replace_options_loop (item # rest) extra_options game_options =
     (case dict_delitem game_options (fst item) of
        Inl e \<Rightarrow> Inl e
      | Inr deleted \<Rightarrow>
          (case dict_getitem extra_options (snd item) of
             Inl e \<Rightarrow> Inl e
           | Inr wrapper \<Rightarrow>
               replace_options_loop rest extra_options (AList.update (snd item) wrapper deleted)))"

text \<open>
  The innermost loop of the trigger rewriting, over \<open>list(weights.items())\<close>: the
  first argument is \<open>new_weight_names\<close>, the second the snapshot being iterated, the
  third the dictionary \<open>weights\<close> as it is mutated. The keys of \<open>new_weight_names\<close>
  are strings, so only a string label can be among them.
\<close>

fun rename_weights_loop ::
    "(pystr \<times> pystr) list \<Rightarrow> (pykey \<times> pyval) list \<Rightarrow> (pykey \<times> pyval) list
      \<Rightarrow> error + (pykey \<times> pyval) list" where
  "rename_weights_loop new_weight_names [] ws = Inr ws"
| "rename_weights_loop new_weight_names (item # rest) ws =
     (case fst item of
        KStr weight_name \<Rightarrow>
          (if weight_name \<in> fst ` set new_weight_names then
             (case dict_delitem ws (fst item) of
                Inl e \<Rightarrow> Inl e
              | Inr deleted \<Rightarrow>
                  (case dict_getitem new_weight_names weight_name of
                     Inl e \<Rightarrow> Inl e
                   | Inr new_name \<Rightarrow>
                       rename_weights_loop new_weight_names rest
                         (AList.update (KStr new_name) (snd item) deleted)))
           else rename_weights_loop new_weight_names rest ws)
      | _ \<Rightarrow> rename_weights_loop new_weight_names rest ws)"

text \<open>
  \<open>if not isinstance(weights, dict): weights = {weights: 1}\<close>; building the
  dictionary raises \<open>TypeError\<close> when the value is unhashable.
\<close>

definition as_weights :: "pyval \<Rightarrow> error + (pykey \<times> pyval) list" where
  "as_weights v =
     (case v of
        YDict ws \<Rightarrow> Inr ws
      | _ \<Rightarrow> (case key_of v of Inl e \<Rightarrow> Inl e | Inr k \<Rightarrow> Inr [(k, YInt 1)]))"

text \<open>
  The loop over \<open>list(game_trigger_options.items())\<close>: the snapshot, then the
  dictionary as it is mutated. The dictionary stored under the wrapper's name is the
  object that the label loop goes on to mutate, so the entry ends up holding the
  renamed labels.
\<close>

fun rename_options_loop ::
    "(pystr \<times> pystr) list \<Rightarrow> Options \<Rightarrow> (pykey \<times> pyval) list \<Rightarrow> (pykey \<times> pyval) list
      \<Rightarrow> error + (pykey \<times> pyval) list" where
  "rename_options_loop r2w extra_options [] gto = Inr gto"
| "rename_options_loop r2w extra_options (item # rest) gto =
     (case fst item of
        KStr opt_name \<Rightarrow>
          (if opt_name \<notin> fst ` set r2w then rename_options_loop r2w extra_options rest gto
           else
             (case as_weights (snd item) of
                Inl e \<Rightarrow> Inl e
              | Inr ws \<Rightarrow>
                  (case dict_getitem r2w opt_name of
                     Inl e \<Rightarrow> Inl e
                   | Inr wrapped_option_name \<Rightarrow>
                       (case dict_delitem gto (fst item) of
                          Inl e \<Rightarrow> Inl e
                        | Inr deleted \<Rightarrow>
                            (case dict_getitem extra_options wrapped_option_name of
                               Inl e \<Rightarrow> Inl e
                             | Inr (WrappedWeightedOption w orig orig_name new_weight_names) \<Rightarrow>
                                 (case rename_weights_loop new_weight_names ws ws of
                                    Inl e \<Rightarrow> Inl e
                                  | Inr renamed \<Rightarrow>
                                      rename_options_loop r2w extra_options rest
                                        (AList.update (KStr wrapped_option_name) (YDict renamed) deleted))
                             | Inr _ \<Rightarrow> Inl AssertionError)))))
      | _ \<Rightarrow> rename_options_loop r2w extra_options rest gto)"

text \<open>
  \<open>new_weight_names[trigger.option_result]\<close>: an unhashable result raises
  \<open>TypeError\<close>, a result that is not a string is no key of the dictionary.
\<close>

definition lookup_result :: "(pystr \<times> pystr) list \<Rightarrow> pyval \<Rightarrow> error + pystr" where
  "lookup_result new_weight_names res =
     (case key_of res of
        Inl e \<Rightarrow> Inl e
      | Inr (KStr s) \<Rightarrow> dict_getitem new_weight_names s
      | Inr _ \<Rightarrow> Inl KeyError)"

text \<open>
  The body of the loop \<open>for trigger in game.triggers\<close>. \<open>trigger.options.get\<close>
  needs \<open>trigger.options\<close> to be a dictionary and \<open>.items()\<close> needs the entry of
  the game to be one (\<open>AttributeError\<close> otherwise); when the game has no entry the
  loop runs over a fresh empty dictionary and changes nothing.
\<close>

definition rewrite_trigger :: "pystr \<Rightarrow> (pystr \<times> pystr) list \<Rightarrow> Options \<Rightarrow> Trigger \<Rightarrow> error + Trigger" where
  "rewrite_trigger g r2w extra_options trigger =
     (if option_category trigger \<noteq> g \<or> option_name trigger \<notin> fst ` set r2w then Inr trigger
      else
        (case dict_getitem r2w (option_name trigger) of
           Inl e \<Rightarrow> Inl e
         | Inr wrapped_name \<Rightarrow>
             (case dict_getitem extra_options wrapped_name of
                Inl e \<Rightarrow> Inl e
              | Inr (WrappedWeightedOption w orig orig_name new_weight_names) \<Rightarrow>
                  (case lookup_result new_weight_names (option_result trigger) of
                     Inl e \<Rightarrow> Inl e
                   | Inr new_result \<Rightarrow>
                       (case Trigger.options trigger of
                          YDict scopes \<Rightarrow>
                            (case map_of scopes (KStr g) of
                               None \<Rightarrow>
                                 Inr (trigger\<lparr>option_name := wrapped_name,
                                              option_result := YStr new_result\<rparr>)
                             | Some (YDict gto) \<Rightarrow>
                                 (case rename_options_loop r2w extra_options gto gto of
                                    Inl e \<Rightarrow> Inl e
                                  | Inr gto' \<Rightarrow>
                                      Inr (trigger\<lparr>option_name := wrapped_name,
                                                   option_result := YStr new_result,
                                                   Trigger.options :=
                                                     YDict (AList.update (KStr g) (YDict gto') scopes)\<rparr>))
                             | Some _ \<Rightarrow> Inl AttributeError)
                        | _ \<Rightarrow> Inl AttributeError))
              | Inr _ \<Rightarrow> Inl AssertionError)))"

fun rewrite_triggers_loop ::
    "pystr \<Rightarrow> (pystr \<times> pystr) list \<Rightarrow> Options \<Rightarrow> Trigger list \<Rightarrow> error + Trigger list" where
  "rewrite_triggers_loop g r2w extra_options [] = Inr []"
| "rewrite_triggers_loop g r2w extra_options (trigger # rest) =
     (case rewrite_trigger g r2w extra_options trigger of
        Inl e \<Rightarrow> Inl e
      | Inr trigger' \<Rightarrow>
          (case rewrite_triggers_loop g r2w extra_options rest of
             Inl e \<Rightarrow> Inl e
           | Inr rest' \<Rightarrow> Inr (trigger' # rest')))"

text \<open>
  \<open>obfuscate_game_wrap\<close> once \<open>game\<close> and \<open>extra_games\<close> have been looked up: it
  returns the game and the \<open>ContextExtra\<close> as mutated, and the random source.
\<close>

definition wrap_game ::
    "Game \<Rightarrow> ContextExtra \<Rightarrow> pystr \<Rightarrow> bool \<Rightarrow> rng \<Rightarrow> error + (Game \<times> ContextExtra \<times> rng)" where
  "wrap_game game extra_game g first_time r =
     (case create_wrapper_options extra_game
             (filter (\<lambda>item. is_WeightedOption (snd item)) (Game.options game)) r of
        Inl e \<Rightarrow> Inl e
      | Inr st \<Rightarrow>
          (case replace_options_loop (real_to_wrapped st) (ContextExtra.options (extra st))
                  (Game.options game) of
             Inl e \<Rightarrow> Inl e
           | Inr game_options \<Rightarrow>
               (if first_time then
                  (case rewrite_triggers_loop g (real_to_wrapped st)
                          (ContextExtra.options (extra st)) (Game.triggers game) of
                     Inl e \<Rightarrow> Inl e
                   | Inr rewritten \<Rightarrow>
                       Inr (game\<lparr>Game.options := game_options,
                                 Game.triggers := rewritten @ wrapper_triggers st\<rparr>,
                            extra st, wrapper_random st))
                else
                  Inr (game\<lparr>Game.options := game_options,
                            Game.triggers :=
                              list_extend_beginning (Game.triggers game) (wrapper_triggers st)\<rparr>,
                       extra st, wrapper_random st))))"

text \<open>
  The engine context. \<open>copy.deepcopy\<close> returns an equal tree that shares no mutable
  node with its argument; a HOL value is such a tree.
\<close>

definition deepcopy :: "'a \<Rightarrow> 'a" where
  "deepcopy x = x"

record Context =
  orig_root :: Root
  root :: Root
  extra_root :: ContextExtra
  extra_games :: "(pystr \<times> ContextExtra) list"
  iteration :: nat

definition Context_init :: "Root \<Rightarrow> Context" where
  "Context_init r =
     \<lparr>orig_root = r,
      root = deepcopy r,
      extra_root = ContextExtra_new [],
      extra_games =
        foldl (\<lambda>d game. AList.update (Game.name game) (ContextExtra_new (Game.name game)) d)
          [] (games (deepcopy r)),
      iteration = 0\<rparr>"

definition obfuscate_game_wrap :: "Context \<Rightarrow> pystr \<Rightarrow> bool \<Rightarrow> rng \<Rightarrow> error + (Context \<times> rng)" where
  "obfuscate_game_wrap self g first_time r =
     (case game_by_name (root self) g of
        Inl e \<Rightarrow> Inl e
      | Inr game \<Rightarrow>
          (case dict_getitem (extra_games self) g of
             Inl e \<Rightarrow> Inl e
           | Inr extra_game \<Rightarrow>
               (case wrap_game game extra_game g first_time r of
                  Inl e \<Rightarrow> Inl e
                | Inr res \<Rightarrow>
                    Inr (self\<lparr>root := store_game (root self) g (fst res),
                              extra_games := AList.update g (fst (snd res)) (extra_games self)\<rparr>,
                         snd (snd res)))))"

definition obfuscate_game :: "Context \<Rightarrow> pystr \<Rightarrow> rng \<Rightarrow> error + (Context \<times> rng)" where
  "obfuscate_game self g r = obfuscate_game_wrap self g (iteration self = 0) r"

fun obfuscate_loop :: "pystr list \<Rightarrow> Context \<Rightarrow> rng \<Rightarrow> error + (Context \<times> rng)" where
  "obfuscate_loop [] self r = Inr (self, r)"
| "obfuscate_loop (g # rest) self r =
     (case obfuscate_game self g r of
        Inl e \<Rightarrow> Inl e
      | Inr res \<Rightarrow> obfuscate_loop rest (fst res) (snd res))"

definition obfuscate :: "Context \<Rightarrow> rng \<Rightarrow> error + (Context \<times> rng)" where
  "obfuscate self r =
     (case obfuscate_loop (map fst (extra_games self)) self r of
        Inl e \<Rightarrow> Inl e
      | Inr res \<Rightarrow> Inr ((fst res)\<lparr>iteration := iteration (fst res) + 1\<rparr>, snd res))"

text \<open>
  The loop \<open>for _ in range(2): context.obfuscate()\<close> of \<open>to_obfuscated_ap_yaml\<close>,
  for any number of passes.
\<close>

fun obfuscate_passes :: "nat \<Rightarrow> Context \<Rightarrow> rng \<Rightarrow> error + (Context \<times> rng)" where
  "obfuscate_passes 0 self r = Inr (self, r)"
| "obfuscate_passes (Suc n) self r =
     (case obfuscate self r of
        Inl e \<Rightarrow> Inl e
      | Inr res \<Rightarrow> obfuscate_passes n (fst res) (snd res))"

section \<open>Auxiliary definitions for the statements\<close>

text \<open>
  A random source given by its first draws, every later draw being 0; it is used to
  run the model on concrete inputs.
\<close>

definition rng_of_list :: "nat list \<Rightarrow> rng" where
  "rng_of_list xs = (\<lambda>i. if i < length xs then xs ! i else 0)"

text \<open>
  \<open>nth_attempt i\<close> is the result of the call of \<open>generate_new_name\<close> number
  \<open>i\<close> (from 0) of a run in which every earlier call returned; the retry budget is
  exhausted when each of the \<open>budget\<close> attempts returns a name that is in \<open>inside\<close>.
\<close>

fun nth_attempt :: "nat \<Rightarrow> int \<Rightarrow> int \<Rightarrow> rng \<Rightarrow> error + (pystr \<times> rng)" where
  "nth_attempt 0 minlen maxlen r = generate_new_name minlen maxlen r"
| "nth_attempt (Suc i) minlen maxlen r =
     (case generate_new_name minlen maxlen r of
        Inl e \<Rightarrow> Inl e
      | Inr nr \<Rightarrow> nth_attempt i minlen maxlen (snd nr))"

definition budget_exhausted :: "nat \<Rightarrow> pystr set \<Rightarrow> int \<Rightarrow> int \<Rightarrow> rng \<Rightarrow> bool" where
  "budget_exhausted budget inside minlen maxlen r =
     (\<forall>i < budget. \<exists>nr. nth_attempt i minlen maxlen r = Inr nr \<and> fst nr \<in> inside)"

text \<open>
  The trigger that \<open>create_wrapper_options\<close> emits for one label, the triggers
  for one option given the generated labels, the wrapper object as it is once filled,
  and the same for a list of options given the generated wrapper names and labels.
\<close>

definition wrapper_trigger :: "pystr \<Rightarrow> pystr \<Rightarrow> pystr \<Rightarrow> pystr \<Rightarrow> pystr \<Rightarrow> Trigger" where
  "wrapper_trigger g orig_name wrapped_name wrapped_label label =
     \<lparr>option_category = g, option_name = wrapped_name, option_result = YStr wrapped_label,
      Trigger.options = YDict [(KStr g, YDict [(KStr orig_name, YStr label)])]\<rparr>"

definition triggers_for :: "pystr \<Rightarrow> pystr \<Rightarrow> pystr \<Rightarrow> weights \<Rightarrow> pystr list \<Rightarrow> Trigger list" where
  "triggers_for g orig_name wrapped_name ws labels =
     map (\<lambda>p. wrapper_trigger g orig_name wrapped_name (fst p) (fst (snd p))) (zip labels ws)"

definition wrapper_for :: "pystr \<Rightarrow> APOption \<Rightarrow> pystr list \<Rightarrow> APOption" where
  "wrapper_for orig_name orig_option labels =
     WrappedWeightedOption (zip labels (map snd (weights_of orig_option))) orig_option orig_name
       (zip (map fst (weights_of orig_option)) labels)"

definition is_weighted_item :: "pystr \<times> APOption \<Rightarrow> bool" where
  "is_weighted_item item = is_WeightedOption (snd item)"

definition wrapped_options :: "Options \<Rightarrow> (pystr \<times> pystr list) list \<Rightarrow> Options" where
  "wrapped_options items gens =
     map (\<lambda>p. (fst (snd p), wrapper_for (fst (fst p)) (snd (fst p)) (snd (snd p)))) (zip items gens)"

definition wrapped_triggers :: "pystr \<Rightarrow> Options \<Rightarrow> (pystr \<times> pystr list) list \<Rightarrow> Trigger list" where
  "wrapped_triggers g items gens =
     concat (map (\<lambda>p. triggers_for g (fst (fst p)) (fst (snd p)) (weights_of (snd (fst p))) (snd (snd p)))
                 (zip items gens))"

definition labels_ok :: "pystr \<times> APOption \<Rightarrow> pystr \<times> pystr list \<Rightarrow> bool" where
  "labels_ok item gen =
     (length (snd gen) = length (weights_of (snd item)) \<and> distinct (snd gen)
        \<and> weights_of (snd item) \<noteq> [])"

text \<open>A concrete option and random source to run the model on.\<close>

definition example_option :: APOption where
  "example_option = WeightedOption [([120], YInt 1), ([121], YInt 2)]"

definition example_rng :: rng where
  "example_rng = rng_of_list (0 # replicate 20 0 @ 0 # replicate 20 0 @ [2])"

text \<open>
  A document with one game \<open>g\<close> holding one weighted option \<open>a: x\<close> and one
  trigger on it, and what two passes make of it when the random source is
  \<open>example_rng\<close>: the names drawn are 20 spaces for the first wrapper and for its
  label, then 22 spaces for the second wrapper and 20 spaces for its label.
\<close>

definition example_single :: APOption where
  "example_single = WeightedOption [([120], YInt 1)]"

definition example_trigger :: Trigger where
  "example_trigger =
     \<lparr>option_category = [103], option_name = [97], option_result = YStr [120],
      Trigger.options = YDict [(KStr [103], YDict [(KStr [97], YStr [120])])]\<rparr>"

definition example_game :: Game where
  "example_game =
     \<lparr>Game.name = [103], Game.triggers = [example_trigger],
      Game.options = [([97], example_single)]\<rparr>"

definition example_root :: Root where
  "example_root =
     \<lparr>Root.name = [110], description = [100], requires = \<lparr>version = [48]\<rparr>,
      games = [example_game], game_weights = [(KStr [103], YInt 1)], Root.triggers = []\<rparr>"

definition example_wrapper1 :: APOption where
  "example_wrapper1 =
     WrappedWeightedOption [(replicate 20 32, YInt 1)] example_single [97] [([120], replicate 20 32)]"

definition example_wrapper2 :: APOption where
  "example_wrapper2 =
     WrappedWeightedOption [(replicate 20 32, YInt 1)] example_wrapper1 (replicate 20 32)
       [(replicate 20 32, replicate 20 32)]"

definition example_rewritten :: Trigger where
  "example_rewritten =
     \<lparr>option_category = [103], option_name = replicate 20 32,
      option_result = YStr (replicate 20 32),
      Trigger.options =
        YDict [(KStr [103], YDict [(KStr (replicate 20 32), YDict [(KStr (replicate 20 32), YInt 1)])])]\<rparr>"

definition example_game1 :: Game where
  "example_game1 =
     \<lparr>Game.name = [103],
      Game.triggers =
        [example_rewritten, wrapper_trigger [103] [97] (replicate 20 32) (replicate 20 32) [120]],
      Game.options = [(replicate 20 32, example_wrapper1)]\<rparr>"

definition example_extra1 :: ContextExtra where
  "example_extra1 =
     \<lparr>game_name = [103], ContextExtra.options = [(replicate 20 32, example_wrapper1)],
      ContextExtra.triggers = []\<rparr>"

definition example_game2 :: Game where
  "example_game2 =
     \<lparr>Game.name = [103],
      Game.triggers =
        [wrapper_trigger [103] (replicate 20 32) (replicate 22 32) (replicate 20 32) (replicate 20 32),
         example_rewritten,
         wrapper_trigger [103] [97] (replicate 20 32) (replicate 20 32) [120]],
      Game.options = [(replicate 22 32, example_wrapper2)]\<rparr>"

definition example_extra2 :: ContextExtra where
  "example_extra2 =
     \<lparr>game_name = [103],
      ContextExtra.options =
        [(replicate 20 32, example_wrapper1), (replicate 22 32, example_wrapper2)],
      ContextExtra.triggers = []\<rparr>"

definition example_context :: "Game \<Rightarrow> ContextExtra \<Rightarrow> nat \<Rightarrow> Context" where
  "example_context game extra_game n =
     \<lparr>orig_root = example_root, root = example_root\<lparr>games := [game]\<rparr>,
      extra_root = ContextExtra_new [], extra_games = [([103], extra_game)], iteration = n\<rparr>"

text \<open>
  What the claims call resolving: the option names a trigger uses as keys of its
  override map for the scope \<open>g\<close>, and a trigger of a game resolving in that game's
  option mapping.
\<close>

definition override_keys :: "pystr \<Rightarrow> Trigger \<Rightarrow> pykey list" where
  "override_keys g t =
     (case Trigger.options t of
        YDict scopes \<Rightarrow>
          (case map_of scopes (KStr g) of
             Some (YDict overrides) \<Rightarrow> map fst overrides
           | _ \<Rightarrow> [])
      | _ \<Rightarrow> [])"

definition trigger_resolves :: "Game \<Rightarrow> Trigger \<Rightarrow> bool" where
  "trigger_resolves game t \<longleftrightarrow>
     option_name t \<in> fst ` set (Game.options game)
     \<and> set (override_keys (Game.name game) t) \<subseteq> KStr ` fst ` set (Game.options game)"

text \<open>
  An option mapping is a dictionary, and so is the weight mapping of each of its
  options: the keys are distinct.
\<close>

definition wf_options :: "Options \<Rightarrow> bool" where
  "wf_options opts \<longleftrightarrow>
     distinct (map fst opts) \<and> (\<forall>item \<in> set opts. distinct (map fst (weights_of (snd item))))"

text \<open>
  Every weighted option of the game is registered under its name in the game's
  \<open>ContextExtra\<close>: the state of a game once a pass has run over it.
\<close>

definition wrappers_known :: "Options \<Rightarrow> ContextExtra \<Rightarrow> bool" where
  "wrappers_known opts extra_game \<longleftrightarrow>
     (\<forall>item \<in> set opts. is_WeightedOption (snd item) \<longrightarrow>
        fst item \<in> fst ` set (ContextExtra.options extra_game))"

text \<open>
  A game in which an option is already named by 20 spaces, the first name that the
  random source \<open>example_rng\<close> makes the generator return.
\<close>

definition collision_game :: Game where
  "collision_game =
     \<lparr>Game.name = [103], Game.triggers = [],
      Game.options = [(replicate 20 32, CustomOption (YList [])), ([97], example_single)]\<rparr>"

text \<open>
  The substitution that the rewriting of a trigger is meant to perform, written from
  the description and not from the loops. \<open>rename_key m\<close> sends a string key that
  \<open>m\<close> renames to its new name and keeps every other key. In a dictionary the
  entries that are not renamed keep their place and the renamed entries follow in
  their order, each deleted and inserted again under its new name.
\<close>

definition renamed :: "(pystr \<times> pystr) list \<Rightarrow> pykey \<Rightarrow> bool" where
  "renamed m k = (case k of KStr n \<Rightarrow> n \<in> fst ` set m | _ \<Rightarrow> False)"


















section \<open>Properties of the encoder and of option parsing\<close>

lemma replicate_num: "replicate (numeral k) x = x # replicate (pred_numeral k) x"
  by (simp add: numeral_eq_Suc)


lemma str_to_unicode_escapes_total:
  "(\<forall>c \<in> set k. c < 2 ^ 32) \<Longrightarrow> \<exists>kb. str_to_unicode_escapes k = Inr kb"
  by (induction k) (auto simp: ord_to_unicode_def)

text \<open>
  Claim C7. Serializing a weighted option (a \<open>WeightedOption\<close> or its subclass
  \<open>WrappedWeightedOption\<close>) gives the bare label when there is exactly one label,
  the mapping from labels to weights when there are two or more, and raises exactly
  when there is no label.
\<close>

theorem WeightedOption_output_by_label_count:
  assumes "is_WeightedOption opt"
  shows "(length (weights_of opt) = 1 \<longrightarrow>
            Option_output opt = Inr (YStr (fst (hd (weights_of opt)))))
       \<and> (2 \<le> length (weights_of opt) \<longrightarrow>
            Option_output opt = Inr (YDict (map (\<lambda>kv. (KStr (fst kv), snd kv)) (weights_of opt))))
       \<and> ((\<exists>e. Option_output opt = Inl e) \<longleftrightarrow> length (weights_of opt) = 0)"
  using assms
  by (cases opt) (auto simp: WeightedOption_output_def hd_conv_nth)

theorem WeightedOption_output_by_label_count_witness:
  "Option_output (WeightedOption [([114], YInt 1)]) = Inr (YStr [114])
 \<and> Option_output (WeightedOption [([97], YInt 1), ([98], YInt 3)])
      = Inr (YDict [(KStr [97], YInt 1), (KStr [98], YInt 3)])
 \<and> (\<exists>e. Option_output (WeightedOption []) = Inl e)"
  using WeightedOption_output_by_label_count [of "WeightedOption [([114], YInt 1)]"]
        WeightedOption_output_by_label_count [of "WeightedOption [([97], YInt 1), ([98], YInt 3)]"]
        WeightedOption_output_by_label_count [of "WeightedOption []"]
  by simp






section \<open>Properties of the name generator\<close>

lemma draw_rng_of_list_Cons [simp]: "draw (rng_of_list (x # xs)) = (x, rng_of_list xs)"
  by (auto simp: draw_def rng_of_list_def fun_eq_iff)

lemma draw_rng_of_list_Nil [simp]: "draw (rng_of_list []) = (0, rng_of_list [])"
  by (auto simp: draw_def rng_of_list_def fun_eq_iff)

lemma WEIRD_CHARS_nonempty: "WEIRD_CHARS \<noteq> []"
  by (simp add: WEIRD_CHARS_def)

lemma choices_total: "\<exists>cs r'. choices n r = Inr (cs, r') \<and> length cs = n"
proof (induction n arbitrary: r)
  case 0
  then show ?case by simp
next
  case (Suc n)
  obtain cs r' where "choices n (snd (draw r)) = Inr (cs, r')" "length cs = n"
    using Suc.IH by blast
  then show ?case
    by (simp add: choice_def WEIRD_CHARS_nonempty)
qed

lemma generate_new_name_total:
  assumes "minlen \<le> maxlen"
  shows "\<exists>nr. generate_new_name minlen maxlen r = Inr nr"
proof -
  obtain cs r' where "choices (nat (minlen + int (fst (draw r) mod nat (maxlen - minlen + 1)))) (snd (draw r)) = Inr (cs, r')"
    using choices_total by blast
  with assms show ?thesis
    by (simp add: generate_new_name_def randint_def)
qed

lemma generate_new_name_error:
  "generate_new_name minlen maxlen r = Inl e \<Longrightarrow> e = ValueError"
  using choices_total [of "nat (minlen + int (fst (draw r) mod nat (maxlen - minlen + 1)))" "snd (draw r)"]
  by (auto simp: generate_new_name_def randint_def split: if_splits)

lemma unique_name_loop_fresh:
  "unique_name_loop budget inside minlen maxlen r = Inr nr \<Longrightarrow> fst nr \<notin> inside"
  by (induction budget arbitrary: r) (auto split: sum.splits if_splits)

lemma budget_exhausted_Suc:
  "budget_exhausted (Suc budget) inside minlen maxlen r \<longleftrightarrow>
     (\<exists>nr. generate_new_name minlen maxlen r = Inr nr \<and> fst nr \<in> inside
        \<and> budget_exhausted budget inside minlen maxlen (snd nr))"
proof
  assume a: "budget_exhausted (Suc budget) inside minlen maxlen r"
  then obtain nr where nr: "generate_new_name minlen maxlen r = Inr nr" "fst nr \<in> inside"
    unfolding budget_exhausted_def by (metis nth_attempt.simps(1) zero_less_Suc)
  have "budget_exhausted budget inside minlen maxlen (snd nr)"
    unfolding budget_exhausted_def
  proof (intro allI impI)
    fix i assume "i < budget"
    then have "\<exists>nr'. nth_attempt (Suc i) minlen maxlen r = Inr nr' \<and> fst nr' \<in> inside"
      using a unfolding budget_exhausted_def by (meson Suc_mono)
    then show "\<exists>nr'. nth_attempt i minlen maxlen (snd nr) = Inr nr' \<and> fst nr' \<in> inside"
      using nr by simp
  qed
  with nr show "\<exists>nr. generate_new_name minlen maxlen r = Inr nr \<and> fst nr \<in> inside
        \<and> budget_exhausted budget inside minlen maxlen (snd nr)" by blast
next
  assume "\<exists>nr. generate_new_name minlen maxlen r = Inr nr \<and> fst nr \<in> inside
        \<and> budget_exhausted budget inside minlen maxlen (snd nr)"
  then obtain nr where nr: "generate_new_name minlen maxlen r = Inr nr" "fst nr \<in> inside"
      "budget_exhausted budget inside minlen maxlen (snd nr)" by blast
  show "budget_exhausted (Suc budget) inside minlen maxlen r"
    unfolding budget_exhausted_def
  proof (intro allI impI)
    fix i assume i: "i < Suc budget"
    show "\<exists>nr'. nth_attempt i minlen maxlen r = Inr nr' \<and> fst nr' \<in> inside"
    proof (cases i)
      case 0
      then show ?thesis using nr by simp
    next
      case (Suc j)
      then have "j < budget" using i by simp
      then show ?thesis using nr Suc unfolding budget_exhausted_def by simp
    qed
  qed
qed

lemma unique_name_loop_exhausted:
  "unique_name_loop budget inside minlen maxlen r = Inl (PyException ''Unable to generate unique name'')
     \<longleftrightarrow> budget_exhausted budget inside minlen maxlen r"
proof (induction budget arbitrary: r)
  case 0
  then show ?case by (simp add: budget_exhausted_def)
next
  case (Suc budget)
  show ?case
  proof (cases "generate_new_name minlen maxlen r")
    case (Inl e)
    then have "e = ValueError" by (rule generate_new_name_error)
    then show ?thesis using Inl by (simp add: budget_exhausted_Suc)
  next
    case (Inr nr)
    then show ?thesis using Suc.IH [of "snd nr"] by (simp add: budget_exhausted_Suc)
  qed
qed

lemma unique_name_loop_error:
  "minlen \<le> maxlen \<Longrightarrow> unique_name_loop budget inside minlen maxlen r = Inl e
     \<Longrightarrow> e = PyException ''Unable to generate unique name''"
proof (induction budget arbitrary: r)
  case 0
  then show ?case by simp
next
  case (Suc budget)
  obtain nr where nr: "generate_new_name minlen maxlen r = Inr nr"
    using generate_new_name_total [OF Suc.prems(1)] by blast
  show ?case using Suc.prems(2) Suc.IH [OF Suc.prems(1), of "snd nr"] nr
    by (simp split: if_splits)
qed

lemma multiple_names_loop_distinct:
  "multiple_names_loop n names r = Inr res \<Longrightarrow>
     \<exists>new. fst res = names @ new \<and> length new = n \<and> distinct new \<and> set new \<inter> set names = {}"
proof (induction n arbitrary: names r)
  case 0
  then show ?case by auto
next
  case (Suc n)
  from Suc.prems obtain nr where nr: "generate_unique_name (set names) 20 50 r = Inr nr"
      and rest: "multiple_names_loop n (names @ [fst nr]) (snd nr) = Inr res"
    by (auto split: sum.splits)
  have fresh: "fst nr \<notin> set names"
    using nr unique_name_loop_fresh by (simp add: generate_unique_name_def)
  obtain new where new: "fst res = (names @ [fst nr]) @ new" "length new = n" "distinct new"
      "set new \<inter> set (names @ [fst nr]) = {}"
    using Suc.IH [OF rest] by blast
  have "fst res = names @ (fst nr # new) \<and> length (fst nr # new) = Suc n
      \<and> distinct (fst nr # new) \<and> set (fst nr # new) \<inter> set names = {}"
    using new fresh by auto
  then show ?case by blast
qed

lemma generate_unique_name_first:
  "generate_new_name minlen maxlen r = Inr nr \<Longrightarrow> fst nr \<notin> inside
     \<Longrightarrow> generate_unique_name inside minlen maxlen r = Inr nr"
proof -
  assume a: "generate_new_name minlen maxlen r = Inr nr" "fst nr \<notin> inside"
  have "unique_name_loop (Suc 99999) inside minlen maxlen r = Inr nr"
    by (subst unique_name_loop.simps(2)) (simp add: a)
  then show ?thesis by (simp add: generate_unique_name_def)
qed

lemma choices_zeros:
  "choices n (rng_of_list (replicate n 0 @ xs)) = Inr (replicate n 32, rng_of_list xs)"
  by (induction n) (simp_all add: choice_def WEIRD_CHARS_def)

lemma choices_Nil:
  "choices n (rng_of_list []) = Inr (replicate n 32, rng_of_list [])"
  by (induction n) (simp_all add: choice_def WEIRD_CHARS_def)

lemma generate_new_name_zeros:
  "k < 31 \<Longrightarrow> generate_new_name 20 50 (rng_of_list (k # replicate (20 + k) 0 @ xs))
     = Inr (replicate (20 + k) 32, rng_of_list xs)"
  using choices_zeros [of "20 + k" xs]
  by (simp add: generate_new_name_def randint_def nat_add_distrib)

lemma generate_new_name_last:
  "k < 31 \<Longrightarrow> generate_new_name 20 50 (rng_of_list [k])
     = Inr (replicate (20 + k) 32, rng_of_list [])"
  using choices_Nil [of "20 + k"]
  by (simp add: generate_new_name_def randint_def nat_add_distrib)

lemma generate_new_name_empty:
  "generate_new_name 0 0 r = Inr ([], snd (draw r))"
  by (simp add: generate_new_name_def randint_def)

lemma nth_attempt_empty:
  "\<exists>r'. nth_attempt i 0 0 r = Inr ([], r')"
  by (induction i arbitrary: r) (simp_all add: generate_new_name_empty)

text \<open>
  Claim C6. A name returned by \<open>generate_unique_name\<close> is not in \<open>inside\<close>.
  Calls that thread one accumulated exclusion list (\<open>multiple_names_loop\<close> from any
  starting list \<open>names\<close>) return names that are pairwise distinct and distinct from
  the starting list; so the \<open>n\<close> names of \<open>generate_multiple_unique_names\<close>
  are pairwise distinct. \<open>generate_unique_name\<close> raises its exception exactly when
  each of the 100000 attempts gives a name in \<open>inside\<close>, and for
  \<open>minlen \<le> maxlen\<close> (as at every call site) it raises nothing else.
\<close>

theorem generate_unique_name_fresh_distinct_budget:
  "(\<forall>nr. generate_unique_name inside minlen maxlen r = Inr nr \<longrightarrow> fst nr \<notin> inside)
 \<and> (\<forall>res. multiple_names_loop n names r = Inr res \<longrightarrow>
       (\<exists>new. fst res = names @ new \<and> length new = n \<and> distinct new \<and> set new \<inter> set names = {}))
 \<and> (\<forall>res. generate_multiple_unique_names n minlen maxlen r = Inr res \<longrightarrow>
       length (fst res) = n \<and> distinct (fst res))
 \<and> (generate_unique_name inside minlen maxlen r = Inl (PyException ''Unable to generate unique name'')
       \<longleftrightarrow> budget_exhausted 100000 inside minlen maxlen r)
 \<and> (minlen \<le> maxlen \<longrightarrow>
       ((\<exists>e. generate_unique_name inside minlen maxlen r = Inl e)
          \<longleftrightarrow> budget_exhausted 100000 inside minlen maxlen r))"
proof (intro conjI allI impI)
  fix nr assume "generate_unique_name inside minlen maxlen r = Inr nr"
  then show "fst nr \<notin> inside"
    using unique_name_loop_fresh by (simp add: generate_unique_name_def)
next
  fix res assume "multiple_names_loop n names r = Inr res"
  then show "\<exists>new. fst res = names @ new \<and> length new = n \<and> distinct new \<and> set new \<inter> set names = {}"
    by (rule multiple_names_loop_distinct)
next
  fix res assume a: "generate_multiple_unique_names n minlen maxlen r = Inr res"
  then show "length (fst res) = n"
    using multiple_names_loop_distinct [of n "[]" r res]
    by (auto simp: generate_multiple_unique_names_def)
  from a show "distinct (fst res)"
    using multiple_names_loop_distinct [of n "[]" r res]
    by (auto simp: generate_multiple_unique_names_def)
next
  show "generate_unique_name inside minlen maxlen r = Inl (PyException ''Unable to generate unique name'')
       \<longleftrightarrow> budget_exhausted 100000 inside minlen maxlen r"
    unfolding generate_unique_name_def by (rule unique_name_loop_exhausted)
next
  assume le: "minlen \<le> maxlen"
  show "(\<exists>e. generate_unique_name inside minlen maxlen r = Inl e)
          \<longleftrightarrow> budget_exhausted 100000 inside minlen maxlen r"
    unfolding generate_unique_name_def
    using unique_name_loop_exhausted [of 100000 inside minlen maxlen r]
      unique_name_loop_error [OF le, of 100000 inside r]
    by blast
qed

theorem generate_unique_name_fresh_distinct_budget_witness:
  "generate_unique_name {replicate 21 32} 20 50 (rng_of_list [0]) = Inr (replicate 20 32, rng_of_list [])
 \<and> replicate 20 32 \<notin> {replicate 21 (32::nat)}
 \<and> generate_multiple_unique_names 2 20 50 (rng_of_list (0 # replicate 20 0 @ [1]))
      = Inr ([replicate 20 32, replicate 21 32], rng_of_list [])
 \<and> distinct [replicate 20 (32::nat), replicate 21 32]
 \<and> generate_unique_name {[]} 0 0 (rng_of_list [])
      = Inl (PyException ''Unable to generate unique name'')"
proof -
  have ne: "replicate 20 (32::nat) \<noteq> replicate 21 32"
    by (metis length_replicate numeral_eq_iff semiring_norm(89))
  have one: "generate_unique_name {replicate 21 32} 20 50 (rng_of_list [0])
      = Inr (replicate 20 32, rng_of_list [])"
    using generate_new_name_last [of 0] ne by (intro generate_unique_name_first) simp_all
  have first: "generate_unique_name {} 20 50 (rng_of_list (0 # replicate 20 0 @ [1]))
      = Inr (replicate 20 32, rng_of_list [1])"
    using generate_new_name_zeros [of 0 "[1]"] by (intro generate_unique_name_first) simp_all
  have second: "generate_unique_name {replicate 20 32} 20 50 (rng_of_list [1])
      = Inr (replicate 21 32, rng_of_list [])"
    using generate_new_name_last [of 1] ne by (intro generate_unique_name_first) simp_all
  have two: "generate_multiple_unique_names 2 20 50 (rng_of_list (0 # replicate 20 0 @ [1]))
      = Inr ([replicate 20 32, replicate 21 32], rng_of_list [])"
    using first second by (simp add: generate_multiple_unique_names_def numeral_2_eq_2)
  have exhausted: "budget_exhausted 100000 {[]} 0 0 (rng_of_list [])"
    unfolding budget_exhausted_def using nth_attempt_empty by fastforce
  show ?thesis
    using generate_unique_name_fresh_distinct_budget
            [of "{replicate 21 32}" 20 50 "rng_of_list [0]" 0 "[]"]
          generate_unique_name_fresh_distinct_budget
            [of "{}" 20 50 "rng_of_list (0 # replicate 20 0 @ [1])" 2 "[]"]
          generate_unique_name_fresh_distinct_budget
            [of "{[]}" 0 0 "rng_of_list []" 0 "[]"]
          one two exhausted ne
    by simp
qed

section \<open>Properties of the wrapping step\<close>

lemma update_fresh: "k \<notin> fst ` set d \<Longrightarrow> AList.update k v d = d @ [(k, v)]"
  by (induction d) auto

lemma update_last: "k \<notin> fst ` set d \<Longrightarrow> AList.update k v (d @ [(k, v0)]) = d @ [(k, v)]"
  by (induction d) auto

lemma generate_unique_name_fresh:
  "generate_unique_name inside minlen maxlen r = Inr nr \<Longrightarrow> fst nr \<notin> inside"
  using unique_name_loop_fresh by (simp add: generate_unique_name_def)

lemma wrap_weights_loop_result:
  assumes "wrap_weights_loop g on wn ws st = Inr st'"
    and "distinct (map fst ws)"
    and "fst ` set (new_weights st) \<subseteq> wrapped_weight_names st"
    and "fst ` set ws \<inter> fst ` set (new_names st) = {}"
  shows "\<exists>ls. length ls = length ws \<and> distinct ls \<and> set ls \<inter> wrapped_weight_names st = {}
       \<and> wrapped_weight_names st' = wrapped_weight_names st \<union> set ls
       \<and> new_weights st' = new_weights st @ zip ls (map snd ws)
       \<and> new_names st' = new_names st @ zip (map fst ws) ls
       \<and> new_triggers st' = new_triggers st @ triggers_for g on wn ws ls"
  using assms
proof (induction ws arbitrary: st)
  case Nil
  then show ?case by (simp add: triggers_for_def)
next
  case (Cons item rest)
  from Cons.prems(1) obtain nr where
    nr: "generate_unique_name (wrapped_weight_names st) 20 50 (random st) = Inr nr"
    by (auto split: sum.splits)
  define st1 where "st1 =
     \<lparr>wrapped_weight_names = insert (fst nr) (wrapped_weight_names st),
      new_weights = AList.update (fst nr) (snd item) (new_weights st),
      new_names = AList.update (fst item) (fst nr) (new_names st),
      new_triggers = new_triggers st @
        [\<lparr>option_category = g, option_name = wn,
          option_result = YStr (fst nr),
          Trigger.options = YDict [(KStr g, YDict [(KStr on, YStr (fst item))])]\<rparr>],
      random = snd nr\<rparr>"
  have rest: "wrap_weights_loop g on wn rest st1 = Inr st'"
    using Cons.prems(1) nr by (simp add: st1_def)
  have fresh: "fst nr \<notin> wrapped_weight_names st"
    using nr by (rule generate_unique_name_fresh)
  have fresh_w: "fst nr \<notin> fst ` set (new_weights st)"
    using fresh Cons.prems(3) by blast
  have fresh_n: "fst item \<notin> fst ` set (new_names st)"
    using Cons.prems(4) by auto
  have w1: "new_weights st1 = new_weights st @ [(fst nr, snd item)]"
    by (simp add: st1_def update_fresh [OF fresh_w])
  have n1: "new_names st1 = new_names st @ [(fst item, fst nr)]"
    by (simp add: st1_def update_fresh [OF fresh_n])
  have t1: "new_triggers st1 = new_triggers st @ [wrapper_trigger g on wn (fst nr) (fst item)]"
    by (simp add: st1_def wrapper_trigger_def)
  have s1: "wrapped_weight_names st1 = insert (fst nr) (wrapped_weight_names st)"
    by (simp add: st1_def)
  have p2: "distinct (map fst rest)" using Cons.prems(2) by simp
  have p3: "fst ` set (new_weights st1) \<subseteq> wrapped_weight_names st1"
    using Cons.prems(3) by (auto simp: w1 s1)
  have p4: "fst ` set rest \<inter> fst ` set (new_names st1) = {}"
    using Cons.prems(2,4) by (auto simp: n1)
  obtain ls where ls: "length ls = length rest" "distinct ls"
      "set ls \<inter> wrapped_weight_names st1 = {}"
      "wrapped_weight_names st' = wrapped_weight_names st1 \<union> set ls"
      "new_weights st' = new_weights st1 @ zip ls (map snd rest)"
      "new_names st' = new_names st1 @ zip (map fst rest) ls"
      "new_triggers st' = new_triggers st1 @ triggers_for g on wn rest ls"
    using Cons.IH [OF rest p2 p3 p4] by blast
  have "length (fst nr # ls) = length (item # rest) \<and> distinct (fst nr # ls)
       \<and> set (fst nr # ls) \<inter> wrapped_weight_names st = {}
       \<and> wrapped_weight_names st' = wrapped_weight_names st \<union> set (fst nr # ls)
       \<and> new_weights st' = new_weights st @ zip (fst nr # ls) (map snd (item # rest))
       \<and> new_names st' = new_names st @ zip (map fst (item # rest)) (fst nr # ls)
       \<and> new_triggers st' = new_triggers st @ triggers_for g on wn (item # rest) (fst nr # ls)"
    using ls fresh by (auto simp: w1 n1 t1 s1 triggers_for_def)
  then show ?case by blast
qed

lemma generate_option_result:
  assumes "generate_option self option r = Inr res"
  shows "fst (fst res) \<notin> fst ` set (ContextExtra.options self)
       \<and> snd (fst res) = option
       \<and> fst (snd res) = self\<lparr>ContextExtra.options := ContextExtra.options self @ [(fst (fst res), option)]\<rparr>"
proof -
  from assms obtain nr where nr: "generate_unique_name (set (map fst (ContextExtra.options self))) 20 50 r = Inr nr"
    and res: "res = ((fst nr, option),
               self\<lparr>ContextExtra.options := AList.update (fst nr) option (ContextExtra.options self)\<rparr>,
               snd nr)"
    by (auto simp: generate_option_def split: sum.splits)
  have "fst nr \<notin> fst ` set (ContextExtra.options self)"
    using generate_unique_name_fresh [OF nr] by simp
  then show ?thesis using res by (simp add: update_fresh)
qed

lemma create_wrapper_loop_result:
  assumes "create_wrapper_loop items st = Inr st'"
    and "distinct (map fst items)"
    and "\<forall>item \<in> set items. distinct (map fst (weights_of (snd item)))"
    and "fst ` set items \<inter> fst ` set (real_to_wrapped st) = {}"
  shows "\<exists>gens. length gens = length (filter is_weighted_item items)
       \<and> distinct (map fst gens)
       \<and> fst ` set gens \<inter> fst ` set (ContextExtra.options (extra st)) = {}
       \<and> list_all2 labels_ok (filter is_weighted_item items) gens
       \<and> real_to_wrapped st' = real_to_wrapped st @ zip (map fst (filter is_weighted_item items)) (map fst gens)
       \<and> ContextExtra.options (extra st') = ContextExtra.options (extra st)
            @ wrapped_options (filter is_weighted_item items) gens
       \<and> wrapper_triggers st' = wrapper_triggers st
            @ wrapped_triggers (game_name (extra st)) (filter is_weighted_item items) gens
       \<and> game_name (extra st') = game_name (extra st)"
  using assms
proof (induction items arbitrary: st)
  case Nil
  then show ?case by (simp add: wrapped_options_def wrapped_triggers_def)
next
  case (Cons item rest)
  have p2: "distinct (map fst rest)" using Cons.prems(2) by simp
  have p3: "\<forall>item \<in> set rest. distinct (map fst (weights_of (snd item)))"
    using Cons.prems(3) by simp
  show ?case
  proof (cases "is_WeightedOption (snd item)")
    case False
    then have rest: "create_wrapper_loop rest st = Inr st'" using Cons.prems(1) by simp
    have p4: "fst ` set rest \<inter> fst ` set (real_to_wrapped st) = {}"
      using Cons.prems(4) by auto
    show ?thesis using Cons.IH [OF rest p2 p3 p4] False by (simp add: is_weighted_item_def)
  next
    case True
    from Cons.prems(1) True obtain res where
      res: "generate_option (extra st) (WrappedWeightedOption_wrap (fst item) (snd item))
                (wrapper_random st) = Inr res"
      by (auto split: sum.splits)
    define wn where "wn = fst (fst res)"
    define init where "init = \<lparr>wrapped_weight_names = {}, new_weights = [], new_names = [],
                      new_triggers = wrapper_triggers st, random = snd (snd res)\<rparr>"
    from Cons.prems(1) True res obtain ws where
      ws: "wrap_weights_loop (game_name (extra st)) (fst item) wn (weights_of (snd item)) init = Inr ws"
      by (auto simp: wn_def init_def split: sum.splits)
    define st2 where "st2 =
       \<lparr>extra = (fst (snd res))\<lparr>ContextExtra.options :=
            AList.update wn
              (WrappedWeightedOption (new_weights ws) (snd item) (fst item) (new_names ws))
              (ContextExtra.options (fst (snd res)))\<rparr>,
        real_to_wrapped = AList.update (fst item) wn (real_to_wrapped st),
        wrapper_triggers = new_triggers ws,
        wrapper_random = random ws\<rparr>"
    have asserts: "length (new_weights ws) = length (weights_of (snd item)) \<and> new_weights ws \<noteq> []"
      and rest: "create_wrapper_loop rest st2 = Inr st'"
      using Cons.prems(1) True res ws
      by (auto simp: wn_def init_def st2_def split: sum.splits if_splits)
    have gen: "wn \<notin> fst ` set (ContextExtra.options (extra st))"
      "fst (snd res) = (extra st)\<lparr>ContextExtra.options := ContextExtra.options (extra st)
           @ [(wn, WrappedWeightedOption_wrap (fst item) (snd item))]\<rparr>"
      using generate_option_result [OF res] by (simp_all add: wn_def)
    obtain ls where ls: "length ls = length (weights_of (snd item))" "distinct ls"
        "new_weights ws = zip ls (map snd (weights_of (snd item)))"
        "new_names ws = zip (map fst (weights_of (snd item))) ls"
        "new_triggers ws = wrapper_triggers st
           @ triggers_for (game_name (extra st)) (fst item) wn (weights_of (snd item)) ls"
      using wrap_weights_loop_result [OF ws] Cons.prems(3)
      by (auto simp: init_def)
    have nonempty: "weights_of (snd item) \<noteq> []"
      using asserts ls by auto
    have fresh_r: "fst item \<notin> fst ` set (real_to_wrapped st)"
      using Cons.prems(4) by auto
    have e2: "ContextExtra.options (extra st2) = ContextExtra.options (extra st)
         @ [(wn, wrapper_for (fst item) (snd item) ls)]"
      using gen ls by (simp add: st2_def update_last wrapper_for_def)
    have r2: "real_to_wrapped st2 = real_to_wrapped st @ [(fst item, wn)]"
      by (simp add: st2_def update_fresh [OF fresh_r])
    have t2: "wrapper_triggers st2 = wrapper_triggers st
           @ triggers_for (game_name (extra st)) (fst item) wn (weights_of (snd item)) ls"
      using ls by (simp add: st2_def)
    have g2: "game_name (extra st2) = game_name (extra st)"
      using gen by (simp add: st2_def)
    have p4: "fst ` set rest \<inter> fst ` set (real_to_wrapped st2) = {}"
      using Cons.prems(2,4) by (auto simp: r2)
    obtain gens where gens: "length gens = length (filter is_weighted_item rest)"
        "distinct (map fst gens)"
        "fst ` set gens \<inter> fst ` set (ContextExtra.options (extra st2)) = {}"
        "list_all2 labels_ok (filter is_weighted_item rest) gens"
        "real_to_wrapped st' = real_to_wrapped st2 @ zip (map fst (filter is_weighted_item rest)) (map fst gens)"
        "ContextExtra.options (extra st') = ContextExtra.options (extra st2)
            @ wrapped_options (filter is_weighted_item rest) gens"
        "wrapper_triggers st' = wrapper_triggers st2
            @ wrapped_triggers (game_name (extra st2)) (filter is_weighted_item rest) gens"
        "game_name (extra st') = game_name (extra st2)"
      using Cons.IH [OF rest p2 p3 p4] by blast
    let ?gens = "(wn, ls) # gens"
    have w: "filter is_weighted_item (item # rest) = item # filter is_weighted_item rest"
      using True by (simp add: is_weighted_item_def)
    have "length ?gens = length (filter is_weighted_item (item # rest))"
      using gens(1) w by simp
    moreover have "distinct (map fst ?gens)"
      using gens(2,3) by (auto simp: e2)
    moreover have "fst ` set ?gens \<inter> fst ` set (ContextExtra.options (extra st)) = {}"
      using gens(3) gen(1) by (auto simp: e2)
    moreover have "list_all2 labels_ok (filter is_weighted_item (item # rest)) ?gens"
      using gens(4) ls nonempty w by (simp add: labels_ok_def)
    moreover have "real_to_wrapped st' = real_to_wrapped st
        @ zip (map fst (filter is_weighted_item (item # rest))) (map fst ?gens)"
      using gens(5) w by (simp add: r2)
    moreover have "ContextExtra.options (extra st') = ContextExtra.options (extra st)
            @ wrapped_options (filter is_weighted_item (item # rest)) ?gens"
      using gens(6) w by (simp add: e2 wrapped_options_def)
    moreover have "wrapper_triggers st' = wrapper_triggers st
            @ wrapped_triggers (game_name (extra st)) (filter is_weighted_item (item # rest)) ?gens"
      using gens(7) w by (simp add: t2 g2 wrapped_triggers_def)
    moreover have "game_name (extra st') = game_name (extra st)"
      using gens(8) g2 by simp
    ultimately show ?thesis by blast
  qed
qed

lemma create_wrapper_options_result:
  assumes "create_wrapper_options self items r = Inr st"
    and "distinct (map fst items)"
    and "\<forall>item \<in> set items. distinct (map fst (weights_of (snd item)))"
  shows "\<exists>gens. length gens = length (filter is_weighted_item items)
       \<and> distinct (map fst gens)
       \<and> fst ` set gens \<inter> fst ` set (ContextExtra.options self) = {}
       \<and> list_all2 labels_ok (filter is_weighted_item items) gens
       \<and> real_to_wrapped st = zip (map fst (filter is_weighted_item items)) (map fst gens)
       \<and> ContextExtra.options (extra st) = ContextExtra.options self
            @ wrapped_options (filter is_weighted_item items) gens
       \<and> wrapper_triggers st = wrapped_triggers (game_name self) (filter is_weighted_item items) gens
       \<and> game_name (extra st) = game_name self"
  using create_wrapper_loop_result [of items
      "\<lparr>extra = self, real_to_wrapped = [], wrapper_triggers = [], wrapper_random = r\<rparr>" st]
    assms
  by (simp add: create_wrapper_options_def)

lemma filter_triggers_for:
  "filter (\<lambda>t. option_name t = wn') (triggers_for g on wn ws ls)
     = (if wn = wn' then triggers_for g on wn ws ls else [])"
  by (auto simp: triggers_for_def wrapper_trigger_def filter_empty_conv)

lemma wrapped_triggers_names:
  assumes "t \<in> set (wrapped_triggers g xs ys)"
  shows "option_name t \<in> fst ` set ys"
proof -
  from assms obtain p where p: "p \<in> set (zip xs ys)"
      "t \<in> set (triggers_for g (fst (fst p)) (fst (snd p)) (weights_of (snd (fst p))) (snd (snd p)))"
    by (auto simp: wrapped_triggers_def)
  then have "option_name t = fst (snd p)"
    by (auto simp: triggers_for_def wrapper_trigger_def)
  moreover have "snd p \<in> set ys"
    using p(1) by (metis prod.collapse set_zip_rightD)
  ultimately show ?thesis by simp
qed

lemma wrapped_triggers_other:
  "wn \<notin> fst ` set ys \<Longrightarrow> filter (\<lambda>t. option_name t = wn) (wrapped_triggers g xs ys) = []"
  using wrapped_triggers_names by (fastforce simp: filter_empty_conv)

lemma zip_lookups:
  assumes "length items = length gens" "distinct (map fst items)" "distinct (map fst gens)"
    "(item, gen) \<in> set (zip items gens)"
  shows "map_of (zip (map fst items) (map fst gens)) (fst item) = Some (fst gen)"
    and "map_of (wrapped_options items gens) (fst gen)
           = Some (wrapper_for (fst item) (snd item) (snd gen))"
    and "filter (\<lambda>t. option_name t = fst gen) (wrapped_triggers g items gens)
           = triggers_for g (fst item) (fst gen) (weights_of (snd item)) (snd gen)"
  using assms
proof (induction items gens rule: list_induct2)
  case Nil
  { case 1 then show ?case by simp }
  { case 2 then show ?case by simp }
  { case 3 then show ?case by simp }
next
  case (Cons x xs y ys)
  { case 1 then show ?case using Cons.IH(1)
      by (auto dest: set_zip_leftD simp: rev_image_eqI) }
  { case 2 then show ?case using Cons.IH(2)
      by (auto dest: set_zip_rightD simp: wrapped_options_def rev_image_eqI) }
  { case 3
    have tail_none: "fst y \<notin> fst ` set ys \<Longrightarrow>
        filter (\<lambda>t. option_name t = fst y) (wrapped_triggers g xs ys) = []"
      by (rule wrapped_triggers_other)
    from 3 show ?case using Cons.IH(3) tail_none
      by (auto dest: set_zip_rightD simp: wrapped_triggers_def filter_triggers_for rev_image_eqI) }
qed

lemma gun_zeros:
  "k < 31 \<Longrightarrow> replicate (20 + k) 32 \<notin> inside \<Longrightarrow>
     generate_unique_name inside 20 50 (rng_of_list (k # replicate (20 + k) 0 @ xs))
       = Inr (replicate (20 + k) 32, rng_of_list xs)"
  using generate_new_name_zeros [of k xs] by (intro generate_unique_name_first) simp_all

lemma gun_last:
  "k < 31 \<Longrightarrow> replicate (20 + k) 32 \<notin> inside \<Longrightarrow>
     generate_unique_name inside 20 50 (rng_of_list [k]) = Inr (replicate (20 + k) 32, rng_of_list [])"
  using generate_new_name_last [of k] by (intro generate_unique_name_first) simp_all

lemma gun_Nil:
  "replicate 20 32 \<notin> inside \<Longrightarrow>
     generate_unique_name inside 20 50 (rng_of_list []) = Inr (replicate 20 32, rng_of_list [])"
proof -
  assume a: "replicate 20 32 \<notin> inside"
  have "generate_new_name 20 50 (rng_of_list []) = Inr (replicate 20 32, rng_of_list [])"
    using choices_Nil [of 20] by (simp add: generate_new_name_def randint_def)
  then show ?thesis using a by (intro generate_unique_name_first) simp_all
qed

text \<open>
  Claim C2. For every \<open>WeightedOption\<close> wrapped by \<open>create_wrapper_options\<close>
  (the option mappings being dictionaries, so with distinct keys): the wrapper is
  stored under its generated name, its labels \<open>labels\<close> are pairwise distinct and
  as many as the original's, each original weight is copied to the corresponding
  wrapper label, \<open>wrapped_weights_names\<close> pairs each original label with its
  wrapper label, and the triggers generated for the option are, in order, one per
  label: category the game name, \<open>option_name\<close> the wrapper's name,
  \<open>option_result\<close> the wrapper label, overriding the original option to the
  corresponding original label in the game's scope.
\<close>

theorem create_wrapper_options_bijection:
  assumes "create_wrapper_options self orig_options r = Inr st"
    and "distinct (map fst orig_options)"
    and "\<forall>item \<in> set orig_options. distinct (map fst (weights_of (snd item)))"
    and "(orig_name, orig_option) \<in> set orig_options"
    and "is_WeightedOption orig_option"
  shows "\<exists>wrapped_name labels.
       map_of (real_to_wrapped st) orig_name = Some wrapped_name
     \<and> map_of (ContextExtra.options (extra st)) wrapped_name
         = Some (WrappedWeightedOption (zip labels (map snd (weights_of orig_option)))
                   orig_option orig_name (zip (map fst (weights_of orig_option)) labels))
     \<and> length labels = length (weights_of orig_option)
     \<and> distinct labels
     \<and> filter (\<lambda>t. option_name t = wrapped_name) (wrapper_triggers st)
         = map (\<lambda>p. wrapper_trigger (game_name self) orig_name wrapped_name (fst p) (fst (snd p)))
             (zip labels (weights_of orig_option))
     \<and> map option_result (filter (\<lambda>t. option_name t = wrapped_name) (wrapper_triggers st))
         = map YStr labels"
proof -
  let ?wi = "filter is_weighted_item orig_options"
  obtain gens where gens: "length gens = length ?wi" "distinct (map fst gens)"
      "fst ` set gens \<inter> fst ` set (ContextExtra.options self) = {}"
      "list_all2 labels_ok ?wi gens"
      "real_to_wrapped st = zip (map fst ?wi) (map fst gens)"
      "ContextExtra.options (extra st) = ContextExtra.options self @ wrapped_options ?wi gens"
      "wrapper_triggers st = wrapped_triggers (game_name self) ?wi gens"
    using create_wrapper_options_result [OF assms(1-3)] by blast
  have "(orig_name, orig_option) \<in> set ?wi"
    using assms(4,5) by (simp add: is_weighted_item_def)
  then obtain gen where gen: "((orig_name, orig_option), gen) \<in> set (zip ?wi gens)"
    using gens(1) by (metis in_set_impl_in_set_zip1)
  have dwi: "distinct (map fst ?wi)"
    using assms(2) by (simp add: distinct_map_filter)
  note lk = zip_lookups [OF gens(1) [symmetric] dwi gens(2) gen]
  have ok: "labels_ok (orig_name, orig_option) gen"
    using gens(4) gen by (auto simp: list_all2_iff)
  have notin: "fst gen \<notin> fst ` set (ContextExtra.options self)"
    using gens(3) gen by (auto dest!: set_zip_rightD)
  have a: "map_of (real_to_wrapped st) orig_name = Some (fst gen)"
    using lk(1) gens(5) by simp
  have b: "map_of (ContextExtra.options (extra st)) (fst gen)
      = Some (WrappedWeightedOption (zip (snd gen) (map snd (weights_of orig_option)))
                   orig_option orig_name (zip (map fst (weights_of orig_option)) (snd gen)))"
  proof -
    have "map_of (ContextExtra.options self) (fst gen) = None"
      using notin by (simp add: map_of_eq_None_iff)
    then show ?thesis using lk(2) gens(6) by (simp add: map_add_def wrapper_for_def)
  qed
  have c: "filter (\<lambda>t. option_name t = fst gen) (wrapper_triggers st)
         = map (\<lambda>p. wrapper_trigger (game_name self) orig_name (fst gen) (fst p) (fst (snd p)))
             (zip (snd gen) (weights_of orig_option))"
    using lk(3) [of "game_name self"] gens(7) by (simp add: triggers_for_def)
  have len: "length (snd gen) = length (weights_of orig_option)" "distinct (snd gen)"
    using ok by (simp_all add: labels_ok_def)
  have "map option_result (map (\<lambda>p. wrapper_trigger (game_name self) orig_name (fst gen) (fst p) (fst (snd p)))
             (zip (snd gen) (weights_of orig_option)))
      = map YStr (map fst (zip (snd gen) (weights_of orig_option)))"
    by (simp add: wrapper_trigger_def)
  then have d: "map option_result (filter (\<lambda>t. option_name t = fst gen) (wrapper_triggers st))
         = map YStr (snd gen)"
    using len(1) by (simp only: c map_fst_zip)
  show ?thesis using a b c d len by blast
qed

lemma example_wrapper:
  "create_wrapper_options (ContextExtra_new [103]) [([97], example_option)] example_rng
     = Inr \<lparr>extra = \<lparr>game_name = [103],
                      ContextExtra.options =
                        [(replicate 20 32,
                          WrappedWeightedOption [(replicate 20 32, YInt 1), (replicate 22 32, YInt 2)]
                            example_option [97] [([120], replicate 20 32), ([121], replicate 22 32)])],
                      ContextExtra.triggers = []\<rparr>,
            real_to_wrapped = [([97], replicate 20 32)],
            wrapper_triggers =
              [wrapper_trigger [103] [97] (replicate 20 32) (replicate 20 32) [120],
               wrapper_trigger [103] [97] (replicate 20 32) (replicate 22 32) [121]],
            wrapper_random = rng_of_list []\<rparr>"
proof -
  have n1: "generate_unique_name {} 20 50 (rng_of_list (0 # replicate 20 0 @ 0 # replicate 20 0 @ [2]))
      = Inr (replicate 20 32, rng_of_list (0 # replicate 20 0 @ [2]))"
    using gun_zeros [of 0 "{}" "0 # replicate 20 0 @ [2]"] by simp
  have n2: "generate_unique_name {} 20 50 (rng_of_list (0 # replicate 20 0 @ [2]))
      = Inr (replicate 20 32, rng_of_list [2])"
    using gun_zeros [of 0 "{}" "[2]"] by simp
  have n3: "generate_unique_name {replicate 20 32} 20 50 (rng_of_list [2])
      = Inr (replicate 22 32, rng_of_list [])"
    using gun_last [of 2 "{replicate 20 32}"] by simp
  show ?thesis
    by (simp add: create_wrapper_options_def ContextExtra_new_def example_option_def example_rng_def
        generate_option_def WrappedWeightedOption_wrap_def n1 n2 n3 wrapper_trigger_def)
qed

theorem create_wrapper_options_bijection_witness:
  "\<exists>st. create_wrapper_options (ContextExtra_new [103]) [([97], example_option)] example_rng = Inr st
     \<and> (\<exists>wrapped_name labels.
           map_of (real_to_wrapped st) [97] = Some wrapped_name
         \<and> map_of (ContextExtra.options (extra st)) wrapped_name
             = Some (WrappedWeightedOption (zip labels (map snd (weights_of example_option)))
                       example_option [97] (zip (map fst (weights_of example_option)) labels))
         \<and> length labels = length (weights_of example_option)
         \<and> distinct labels
         \<and> filter (\<lambda>t. option_name t = wrapped_name) (wrapper_triggers st)
             = map (\<lambda>p. wrapper_trigger (game_name (ContextExtra_new [103])) [97] wrapped_name (fst p) (fst (snd p)))
                 (zip labels (weights_of example_option))
         \<and> map option_result (filter (\<lambda>t. option_name t = wrapped_name) (wrapper_triggers st))
             = map YStr labels)"
proof -
  obtain st where st: "create_wrapper_options (ContextExtra_new [103]) [([97], example_option)] example_rng = Inr st"
    using example_wrapper by blast
  have h2: "distinct (map fst [([97], example_option)])" by simp
  have h3: "\<forall>item \<in> set [([97], example_option)]. distinct (map fst (weights_of (snd item)))"
    by (simp add: example_option_def)
  have h4: "([97], example_option) \<in> set [([97], example_option)]" by simp
  have h5: "is_WeightedOption example_option" by (simp add: example_option_def)
  from create_wrapper_options_bijection [OF st h2 h3 h4 h5] show ?thesis using st by blast
qed

section \<open>Properties of a pass\<close>

lemma foldl_cons: "foldl (\<lambda>base elem. elem # base) base xs = rev xs @ base"
  by (induction xs arbitrary: base) auto

lemma list_extend_beginning_eq: "list_extend_beginning base_list prepend_with = prepend_with @ base_list"
  by (simp add: list_extend_beginning_def foldl_cons)

lemma rewrite_triggers_loop_result:
  "rewrite_triggers_loop g r2w eo ts = Inr ts' \<Longrightarrow>
     list_all2 (\<lambda>t t'. rewrite_trigger g r2w eo t = Inr t') ts ts'"
  by (induction ts arbitrary: ts') (auto split: sum.splits)

lemma game_by_name_list_store:
  "game_by_name_list gs g = Inr game \<Longrightarrow> Game.name game' = g \<Longrightarrow>
     game_by_name_list (store_game_list gs g game') g = Inr game'"
  by (induction gs) (auto split: if_splits)

lemma wrap_game_name:
  "wrap_game game extra_game g first_time r = Inr res \<Longrightarrow> Game.name (fst res) = Game.name game"
  by (auto simp: wrap_game_def split: sum.splits if_splits)

lemma game_by_name_list_name:
  "game_by_name_list gs g = Inr game \<Longrightarrow> Game.name game = g"
  by (induction gs) (auto split: if_splits)

text \<open>
  Claim C3. A pass over a game generates the wrapper triggers \<open>wrapper_triggers st\<close>.
  On pass 0 (\<open>iteration = 0\<close>) the game's trigger list becomes the pre-existing
  triggers, each rewritten in its place and none dropped, followed by the wrapper
  triggers; on every later pass it becomes the wrapper triggers, in their order,
  followed by the pre-existing triggers unchanged.
\<close>

theorem obfuscate_game_trigger_order:
  assumes "obfuscate_game self g r = Inr res"
  shows "\<exists>game extra_game st game'.
       game_by_name (root self) g = Inr game
     \<and> dict_getitem (extra_games self) g = Inr extra_game
     \<and> create_wrapper_options extra_game
          (filter (\<lambda>item. is_WeightedOption (snd item)) (Game.options game)) r = Inr st
     \<and> game_by_name (root (fst res)) g = Inr game'
     \<and> (iteration self = 0 \<longrightarrow>
          (\<exists>rewritten. Game.triggers game' = rewritten @ wrapper_triggers st
             \<and> length rewritten = length (Game.triggers game)
             \<and> list_all2 (\<lambda>t t'. rewrite_trigger g (real_to_wrapped st)
                                    (ContextExtra.options (extra st)) t = Inr t')
                  (Game.triggers game) rewritten))
     \<and> (iteration self \<noteq> 0 \<longrightarrow>
          Game.triggers game' = wrapper_triggers st @ Game.triggers game)"
proof -
  from assms obtain game extra_game wres where
    game: "game_by_name (root self) g = Inr game"
    and ex: "dict_getitem (extra_games self) g = Inr extra_game"
    and w: "wrap_game game extra_game g (iteration self = 0) r = Inr wres"
    and res: "res = (self\<lparr>root := store_game (root self) g (fst wres),
                          extra_games := AList.update g (fst (snd wres)) (extra_games self)\<rparr>,
                     snd (snd wres))"
    by (auto simp: obfuscate_game_def obfuscate_game_wrap_def split: sum.splits)
  from w obtain st go where
    st: "create_wrapper_options extra_game
          (filter (\<lambda>item. is_WeightedOption (snd item)) (Game.options game)) r = Inr st"
    and go: "replace_options_loop (real_to_wrapped st) (ContextExtra.options (extra st))
                  (Game.options game) = Inr go"
    by (auto simp: wrap_game_def split: sum.splits)
  have nm: "Game.name (fst wres) = g"
    using wrap_game_name [OF w] game_by_name_list_name game by (simp add: game_by_name_def)
  have g': "game_by_name (root (fst res)) g = Inr (fst wres)"
    using game nm res by (simp add: game_by_name_def store_game_def game_by_name_list_store)
  have first: "iteration self = 0 \<longrightarrow>
          (\<exists>rewritten. Game.triggers (fst wres) = rewritten @ wrapper_triggers st
             \<and> length rewritten = length (Game.triggers game)
             \<and> list_all2 (\<lambda>t t'. rewrite_trigger g (real_to_wrapped st)
                                    (ContextExtra.options (extra st)) t = Inr t')
                  (Game.triggers game) rewritten)"
  proof
    assume z: "iteration self = 0"
    with w st go obtain rewritten where
      rw: "rewrite_triggers_loop g (real_to_wrapped st) (ContextExtra.options (extra st))
             (Game.triggers game) = Inr rewritten"
      and tr: "Game.triggers (fst wres) = rewritten @ wrapper_triggers st"
      by (auto simp: wrap_game_def split: sum.splits)
    from rewrite_triggers_loop_result [OF rw] tr
    show "\<exists>rewritten. Game.triggers (fst wres) = rewritten @ wrapper_triggers st
             \<and> length rewritten = length (Game.triggers game)
             \<and> list_all2 (\<lambda>t t'. rewrite_trigger g (real_to_wrapped st)
                                    (ContextExtra.options (extra st)) t = Inr t')
                  (Game.triggers game) rewritten"
      by (auto dest: list_all2_lengthD)
  qed
  have later: "iteration self \<noteq> 0 \<longrightarrow>
          Game.triggers (fst wres) = wrapper_triggers st @ Game.triggers game"
    using w st go by (auto simp: wrap_game_def list_extend_beginning_eq split: sum.splits)
  show ?thesis
    by (rule exI [of _ game], rule exI [of _ extra_game], rule exI [of _ st],
        rule exI [of _ "fst wres"])
       (use game ex st g' first later in blast)
qed





section \<open>The model run on the example\<close>

lemma example_names:
  "generate_unique_name {} 20 50 example_rng = Inr (replicate 20 32, rng_of_list (0 # replicate 20 0 @ [2]))"
  "generate_unique_name {} 20 50 (rng_of_list (0 # replicate 20 0 @ [2])) = Inr (replicate 20 32, rng_of_list [2])"
  "generate_unique_name {replicate 20 32} 20 50 (rng_of_list [2]) = Inr (replicate 22 32, rng_of_list [])"
  "generate_unique_name {} 20 50 (rng_of_list []) = Inr (replicate 20 32, rng_of_list [])"
  using gun_zeros [of 0 "{}" "0 # replicate 20 0 @ [2]"] gun_zeros [of 0 "{}" "[2]"]
    gun_last [of 2 "{replicate 20 32}"] gun_Nil [of "{}"]
  by (simp_all add: example_rng_def)

lemma example_pass0:
  "wrap_game example_game (ContextExtra_new [103]) [103] True example_rng
     = Inr (example_game1, example_extra1, rng_of_list [2])"
  by (simp add: wrap_game_def example_game_def example_single_def create_wrapper_options_def
      ContextExtra_new_def generate_option_def WrappedWeightedOption_wrap_def example_names
      dict_delitem_def dict_getitem_def example_trigger_def rewrite_trigger_def lookup_result_def
      as_weights_def example_game1_def example_extra1_def example_wrapper1_def
      example_rewritten_def wrapper_trigger_def)

lemma example_pass1:
  "wrap_game example_game1 example_extra1 [103] False (rng_of_list [2])
     = Inr (example_game2, example_extra2, rng_of_list [])"
  by (simp add: wrap_game_def example_single_def create_wrapper_options_def
      generate_option_def WrappedWeightedOption_wrap_def example_names
      dict_delitem_def dict_getitem_def 
      example_game1_def example_extra1_def example_wrapper1_def
      example_game2_def example_extra2_def example_wrapper2_def list_extend_beginning_eq
      example_rewritten_def wrapper_trigger_def)

lemma example_init: "Context_init example_root = example_context example_game (ContextExtra_new [103]) 0"
  by (simp add: Context_init_def example_context_def example_root_def deepcopy_def example_game_def)

lemma example_game_pass0:
  "obfuscate_game (example_context example_game (ContextExtra_new [103]) 0) [103] example_rng
     = Inr (example_context example_game1 example_extra1 0, rng_of_list [2])"
  by (simp add: obfuscate_game_def obfuscate_game_wrap_def example_context_def game_by_name_def
      example_root_def dict_getitem_def example_pass0 store_game_def)
     (simp add: example_game_def)

lemma example_game_pass1:
  "obfuscate_game (example_context example_game1 example_extra1 (Suc 0)) [103] (rng_of_list [2])
     = Inr (example_context example_game2 example_extra2 (Suc 0), rng_of_list [])"
  by (simp add: obfuscate_game_def obfuscate_game_wrap_def example_context_def game_by_name_def
      example_root_def dict_getitem_def example_pass1 store_game_def)
     (simp add: example_game1_def)

lemma example_obfuscate0:
  "obfuscate (example_context example_game (ContextExtra_new [103]) 0) example_rng
     = Inr (example_context example_game1 example_extra1 (Suc 0), rng_of_list [2])"
proof -
  have "map fst (extra_games (example_context example_game (ContextExtra_new [103]) 0)) = [[103]]"
    by (simp add: example_context_def)
  then show ?thesis
    by (simp add: obfuscate_def example_game_pass0) (simp add: example_context_def)
qed

lemma example_obfuscate1:
  "obfuscate (example_context example_game1 example_extra1 (Suc 0)) (rng_of_list [2])
     = Inr (example_context example_game2 example_extra2 2, rng_of_list [])"
proof -
  have "map fst (extra_games (example_context example_game1 example_extra1 (Suc 0))) = [[103]]"
    by (simp add: example_context_def)
  then show ?thesis
    by (simp add: obfuscate_def example_game_pass1) (simp add: example_context_def)
qed

lemma obfuscate_passes_2:
  "obfuscate_passes 2 self r =
     (case obfuscate self r of
        Inl e \<Rightarrow> Inl e
      | Inr res \<Rightarrow> obfuscate (fst res) (snd res))"
  by (simp add: numeral_2_eq_2 split: sum.splits)

lemma example_run:
  "obfuscate_passes 2 (Context_init example_root) example_rng
     = Inr (example_context example_game2 example_extra2 2, rng_of_list [])"
  by (simp add: obfuscate_passes_2 example_init example_obfuscate0 example_obfuscate1)


theorem obfuscate_game_trigger_order_witness:
  "(\<exists>res game (st::wrapper_state) game' rewritten.
       obfuscate_game (example_context example_game (ContextExtra_new [103]) 0) [103] example_rng = Inr res
     \<and> game_by_name (root (example_context example_game (ContextExtra_new [103]) 0)) [103] = Inr game
     \<and> game_by_name (root (fst res)) [103] = Inr game'
     \<and> Game.triggers game' = rewritten @ wrapper_triggers st
     \<and> length rewritten = length (Game.triggers game))
 \<and> (\<exists>res game (st::wrapper_state) game'.
       obfuscate_game (example_context example_game1 example_extra1 (Suc 0)) [103] (rng_of_list [2]) = Inr res
     \<and> game_by_name (root (example_context example_game1 example_extra1 (Suc 0))) [103] = Inr game
     \<and> game_by_name (root (fst res)) [103] = Inr game'
     \<and> Game.triggers game' = wrapper_triggers st @ Game.triggers game)"
proof -
  obtain res0 where res0:
    "obfuscate_game (example_context example_game (ContextExtra_new [103]) 0) [103] example_rng = Inr res0"
    using example_game_pass0 by blast
  obtain res1 where res1:
    "obfuscate_game (example_context example_game1 example_extra1 (Suc 0)) [103] (rng_of_list [2]) = Inr res1"
    using example_game_pass1 by blast
  have it0: "iteration (example_context example_game (ContextExtra_new [103]) 0) = 0"
    by (simp add: example_context_def)
  have it1: "iteration (example_context example_game1 example_extra1 (Suc 0)) \<noteq> 0"
    by (simp add: example_context_def)
  from obfuscate_game_trigger_order [OF res0]
  obtain game0 extra0 st0 game0' where c0:
    "game_by_name (root (example_context example_game (ContextExtra_new [103]) 0)) [103] = Inr game0
     \<and> dict_getitem (extra_games (example_context example_game (ContextExtra_new [103]) 0)) [103] = Inr extra0
     \<and> create_wrapper_options extra0
          (filter (\<lambda>item. is_WeightedOption (snd item)) (Game.options game0)) example_rng = Inr st0
     \<and> game_by_name (root (fst res0)) [103] = Inr game0'
     \<and> (iteration (example_context example_game (ContextExtra_new [103]) 0) = 0 \<longrightarrow>
          (\<exists>rewritten. Game.triggers game0' = rewritten @ wrapper_triggers st0
             \<and> length rewritten = length (Game.triggers game0)
             \<and> list_all2 (\<lambda>t t'. rewrite_trigger [103] (real_to_wrapped st0)
                                    (ContextExtra.options (extra st0)) t = Inr t')
                  (Game.triggers game0) rewritten))
     \<and> (iteration (example_context example_game (ContextExtra_new [103]) 0) \<noteq> 0 \<longrightarrow>
          Game.triggers game0' = wrapper_triggers st0 @ Game.triggers game0)"
    by (elim exE) (rule that, assumption)
  then have "\<exists>rewritten. Game.triggers game0' = rewritten @ wrapper_triggers st0
             \<and> length rewritten = length (Game.triggers game0)
             \<and> list_all2 (\<lambda>t t'. rewrite_trigger [103] (real_to_wrapped st0)
                                    (ContextExtra.options (extra st0)) t = Inr t')
                  (Game.triggers game0) rewritten"
    using it0 by simp
  then obtain rewritten where rw: "Game.triggers game0' = rewritten @ wrapper_triggers st0"
      "length rewritten = length (Game.triggers game0)"
    by (elim exE conjE) (rule that, assumption+)
  have first: "\<exists>res game (st::wrapper_state) game' rewritten.
       obfuscate_game (example_context example_game (ContextExtra_new [103]) 0) [103] example_rng = Inr res
     \<and> game_by_name (root (example_context example_game (ContextExtra_new [103]) 0)) [103] = Inr game
     \<and> game_by_name (root (fst res)) [103] = Inr game'
     \<and> Game.triggers game' = rewritten @ wrapper_triggers st
     \<and> length rewritten = length (Game.triggers game)"
    by (rule exI [of _ res0], rule exI [of _ game0], rule exI [of _ st0], rule exI [of _ game0'],
        rule exI [of _ rewritten]) (use res0 c0 rw in simp)
  from obfuscate_game_trigger_order [OF res1]
  obtain game1 extra1 st1 game1' where c1:
    "game_by_name (root (example_context example_game1 example_extra1 (Suc 0))) [103] = Inr game1
     \<and> dict_getitem (extra_games (example_context example_game1 example_extra1 (Suc 0))) [103] = Inr extra1
     \<and> create_wrapper_options extra1
          (filter (\<lambda>item. is_WeightedOption (snd item)) (Game.options game1)) (rng_of_list [2]) = Inr st1
     \<and> game_by_name (root (fst res1)) [103] = Inr game1'
     \<and> (iteration (example_context example_game1 example_extra1 (Suc 0)) = 0 \<longrightarrow>
          (\<exists>rewritten. Game.triggers game1' = rewritten @ wrapper_triggers st1
             \<and> length rewritten = length (Game.triggers game1)
             \<and> list_all2 (\<lambda>t t'. rewrite_trigger [103] (real_to_wrapped st1)
                                    (ContextExtra.options (extra st1)) t = Inr t')
                  (Game.triggers game1) rewritten))
     \<and> (iteration (example_context example_game1 example_extra1 (Suc 0)) \<noteq> 0 \<longrightarrow>
          Game.triggers game1' = wrapper_triggers st1 @ Game.triggers game1)"
    by (elim exE) (rule that, assumption)
  have later: "\<exists>res game (st::wrapper_state) game'.
       obfuscate_game (example_context example_game1 example_extra1 (Suc 0)) [103] (rng_of_list [2]) = Inr res
     \<and> game_by_name (root (example_context example_game1 example_extra1 (Suc 0))) [103] = Inr game
     \<and> game_by_name (root (fst res)) [103] = Inr game'
     \<and> Game.triggers game' = wrapper_triggers st @ Game.triggers game"
    by (rule exI [of _ res1], rule exI [of _ game1], rule exI [of _ st1], rule exI [of _ game1'])
       (use res1 c1 it1 in simp)
  show ?thesis using first later by (rule conjI)
qed

section \<open>Which options the triggers name after a pass\<close>

lemma set_delete: "set (AList.delete k d) = {p \<in> set d. fst p \<noteq> k}"
  by (induction d) auto

lemma set_update:
  "distinct (map fst d) \<Longrightarrow> set (AList.update k v d) = insert (k, v) {p \<in> set d. fst p \<noteq> k}"
  by (induction d) (auto simp: rev_image_eqI)

lemma keys_update: "fst ` set (AList.update k v d) = insert k (fst ` set d)"
  by (induction d) auto

lemma keys_delete: "fst ` set (AList.delete k d) = fst ` set d - {k}"
  by (auto simp: set_delete image_iff)

lemma replace_options_loop_keys:
  assumes "replace_options_loop r2w eo go = Inr go'"
    and "snd ` set r2w \<inter> fst ` set r2w = {}"
  shows "fst ` set go' = (fst ` set go - fst ` set r2w) \<union> snd ` set r2w"
  using assms
proof (induction r2w arbitrary: go)
  case Nil
  then show ?case by simp
next
  case (Cons item rest)
  from Cons.prems(1) obtain w where
    rest: "replace_options_loop rest eo (AList.update (snd item) w (AList.delete (fst item) go)) = Inr go'"
    by (auto simp: dict_delitem_def dict_getitem_def split: sum.splits if_splits option.splits)
  have d: "snd ` set rest \<inter> fst ` set rest = {}" using Cons.prems(2) by auto
  have nc: "snd item \<notin> fst ` set rest" using Cons.prems(2) by auto
  show ?case
    using Cons.IH [OF rest d] nc by (auto simp: keys_update keys_delete)
qed

lemma replace_options_loop_entries:
  assumes "replace_options_loop r2w eo go = Inr go'" "distinct (map fst go)"
  shows "set go' \<subseteq> {p \<in> set go. fst p \<notin> fst ` set r2w}
            \<union> {p. fst p \<in> snd ` set r2w \<and> map_of eo (fst p) = Some (snd p)}"
  using assms
proof (induction r2w arbitrary: go)
  case Nil
  then show ?case by simp
next
  case (Cons item rest)
  from Cons.prems(1) obtain w where w: "map_of eo (snd item) = Some w" and
    rest: "replace_options_loop rest eo (AList.update (snd item) w (AList.delete (fst item) go)) = Inr go'"
    by (auto simp: dict_delitem_def dict_getitem_def split: sum.splits if_splits option.splits)
  have dd: "distinct (map fst (AList.delete (fst item) go))"
    using Cons.prems(2) by (simp add: distinct_delete)
  have du: "distinct (map fst (AList.update (snd item) w (AList.delete (fst item) go)))"
    using dd by (simp add: distinct_update)
  show ?case
    using Cons.IH [OF rest du] w by (auto simp: set_update [OF dd] set_delete)
qed

lemma replace_options_loop_distinct:
  assumes "replace_options_loop r2w eo go = Inr go'" "distinct (map fst go)"
  shows "distinct (map fst go')"
  using assms
proof (induction r2w arbitrary: go)
  case Nil
  then show ?case by simp
next
  case (Cons item rest)
  from Cons.prems(1) obtain w where
    rest: "replace_options_loop rest eo (AList.update (snd item) w (AList.delete (fst item) go)) = Inr go'"
    by (auto simp: dict_delitem_def dict_getitem_def split: sum.splits if_splits option.splits)
  show ?case
    using Cons.IH [OF rest] Cons.prems(2) by (simp add: distinct_update distinct_delete)
qed

lemma is_weighted_item_eq: "(\<lambda>item. is_WeightedOption (snd item)) = is_weighted_item"
  by (simp add: fun_eq_iff is_weighted_item_def)

lemma wrapped_triggers_override:
  assumes "t \<in> set (wrapped_triggers g xs ys)"
  shows "\<exists>orig \<in> fst ` set xs. override_keys g t = [KStr orig]"
proof -
  from assms obtain p where p: "p \<in> set (zip xs ys)"
      "t \<in> set (triggers_for g (fst (fst p)) (fst (snd p)) (weights_of (snd (fst p))) (snd (snd p)))"
    by (auto simp: wrapped_triggers_def)
  then have "override_keys g t = [KStr (fst (fst p))]"
    by (auto simp: triggers_for_def wrapper_trigger_def override_keys_def)
  moreover have "fst p \<in> set xs"
    using p(1) by (metis prod.collapse set_zip_leftD)
  ultimately show ?thesis by blast
qed

lemma wrapped_options_labels:
  assumes "p \<in> set (wrapped_options xs ys)" "list_all2 labels_ok xs ys"
  shows "distinct (map fst (weights_of (snd p))) \<and> is_WeightedOption (snd p)"
proof -
  from assms(1) obtain q where q: "q \<in> set (zip xs ys)"
      "p = (fst (snd q), wrapper_for (fst (fst q)) (snd (fst q)) (snd (snd q)))"
    by (auto simp: wrapped_options_def)
  have "labels_ok (fst q) (snd q)"
    using assms(2) q(1) by (auto simp: list_all2_iff)
  then show ?thesis
    using q(2) by (simp add: wrapper_for_def labels_ok_def)
qed

lemma rewrite_trigger_name:
  assumes "rewrite_trigger g r2w eo t = Inr t'"
    and "option_category t = g" and "option_name t \<in> fst ` set r2w"
  shows "map_of r2w (option_name t) = Some (option_name t')"
  using assms
  by (auto simp: rewrite_trigger_def dict_getitem_def
      split: sum.splits option.splits APOption.splits pyval.splits if_splits)

lemma zip_keys:
  "length xs = length ys \<Longrightarrow> fst ` set (zip xs ys) = set xs \<and> snd ` set (zip xs ys) = set ys"
  by (induction xs ys rule: list_induct2) auto

lemma wrap_game_structure:
  assumes "wrap_game game extra_game g ft r = Inr res" and "wf_options (Game.options game)"
  shows "\<exists>st gens.
      create_wrapper_options extra_game
        (filter (\<lambda>item. is_WeightedOption (snd item)) (Game.options game)) r = Inr st
    \<and> length gens = length (filter is_weighted_item (Game.options game))
    \<and> distinct (map fst gens)
    \<and> fst ` set gens \<inter> fst ` set (ContextExtra.options extra_game) = {}
    \<and> list_all2 labels_ok (filter is_weighted_item (Game.options game)) gens
    \<and> real_to_wrapped st = zip (map fst (filter is_weighted_item (Game.options game))) (map fst gens)
    \<and> ContextExtra.options (extra st) = ContextExtra.options extra_game
          @ wrapped_options (filter is_weighted_item (Game.options game)) gens
    \<and> wrapper_triggers st
          = wrapped_triggers (game_name extra_game) (filter is_weighted_item (Game.options game)) gens
    \<and> replace_options_loop (real_to_wrapped st) (ContextExtra.options (extra st))
          (Game.options game) = Inr (Game.options (fst res))
    \<and> fst (snd res) = extra st
    \<and> (ft \<longrightarrow> (\<exists>rewritten.
           rewrite_triggers_loop g (real_to_wrapped st) (ContextExtra.options (extra st))
             (Game.triggers game) = Inr rewritten
         \<and> Game.triggers (fst res) = rewritten @ wrapper_triggers st))
    \<and> (\<not> ft \<longrightarrow> Game.triggers (fst res) = wrapper_triggers st @ Game.triggers game)"
proof -
  let ?items = "filter is_weighted_item (Game.options game)"
  from assms(1) obtain st go where
    st: "create_wrapper_options extra_game
          (filter (\<lambda>item. is_WeightedOption (snd item)) (Game.options game)) r = Inr st"
    and go: "replace_options_loop (real_to_wrapped st) (ContextExtra.options (extra st))
                  (Game.options game) = Inr go"
    by (auto simp: wrap_game_def split: sum.splits)
  have opts: "Game.options (fst res) = go" and ex: "fst (snd res) = extra st"
    using assms(1) st go by (auto simp: wrap_game_def split: sum.splits if_splits)
  have first: "ft \<longrightarrow> (\<exists>rewritten.
           rewrite_triggers_loop g (real_to_wrapped st) (ContextExtra.options (extra st))
             (Game.triggers game) = Inr rewritten
         \<and> Game.triggers (fst res) = rewritten @ wrapper_triggers st)"
    using assms(1) st go by (auto simp: wrap_game_def split: sum.splits if_splits)
  have later: "\<not> ft \<longrightarrow> Game.triggers (fst res) = wrapper_triggers st @ Game.triggers game"
    using assms(1) st go by (auto simp: wrap_game_def list_extend_beginning_eq split: sum.splits if_splits)
  have st': "create_wrapper_options extra_game ?items r = Inr st"
    using st by (simp add: is_weighted_item_eq)
  have d1: "distinct (map fst ?items)"
    using assms(2) by (simp add: wf_options_def distinct_map_filter)
  have d2: "\<forall>item \<in> set ?items. distinct (map fst (weights_of (snd item)))"
    using assms(2) by (simp add: wf_options_def)
  obtain gens where gens: "length gens = length (filter is_weighted_item ?items)"
      "distinct (map fst gens)"
      "fst ` set gens \<inter> fst ` set (ContextExtra.options extra_game) = {}"
      "list_all2 labels_ok (filter is_weighted_item ?items) gens"
      "real_to_wrapped st = zip (map fst (filter is_weighted_item ?items)) (map fst gens)"
      "ContextExtra.options (extra st) = ContextExtra.options extra_game
            @ wrapped_options (filter is_weighted_item ?items) gens"
      "wrapper_triggers st = wrapped_triggers (game_name extra_game) (filter is_weighted_item ?items) gens"
    using create_wrapper_options_result [OF st' d1 d2] by blast
  have idem: "filter is_weighted_item ?items = ?items" by simp
  show ?thesis
    by (rule exI [of _ st], rule exI [of _ gens])
       (use st gens go opts ex first later idem in simp)
qed

text \<open>
  Claim C1, as the code has it. A pass over a game whose option mappings are
  dictionaries leaves them dictionaries, and leaves every weighted option of the game
  registered in the game's \<open>ContextExtra\<close>. The triggers it generates are in the
  game's trigger list. If the weighted options of the game were registered when the
  pass began (so on every pass after the first), or if no wrapper name generated in
  the pass is the name of an option wrapped in the pass, then every generated trigger
  has an \<open>option_name\<close> that is a key of the game's option mapping as the pass
  leaves it, while the one option it overrides was an option of the game before the
  pass and is not a key any more: wrapping deletes the original. On pass 0 every
  pre-existing trigger of the game's category whose \<open>option_name\<close> was wrapped is
  rewritten to an \<open>option_name\<close> that is a key of the mapping.
\<close>

theorem wrap_game_trigger_targets:
  assumes w: "wrap_game game extra_game g first_time r = Inr res"
    and wf: "wf_options (Game.options game)"
  shows "wf_options (Game.options (fst res))
     \<and> wrappers_known (Game.options (fst res)) (fst (snd res))
     \<and> (\<exists>st. create_wrapper_options extra_game
                (filter (\<lambda>item. is_WeightedOption (snd item)) (Game.options game)) r = Inr st
          \<and> set (wrapper_triggers st) \<subseteq> set (Game.triggers (fst res))
          \<and> (wrappers_known (Game.options game) extra_game
               \<or> snd ` set (real_to_wrapped st) \<inter> fst ` set (real_to_wrapped st) = {} \<longrightarrow>
               (\<forall>t \<in> set (wrapper_triggers st).
                   option_name t \<in> fst ` set (Game.options (fst res))
                 \<and> (\<exists>orig. override_keys (game_name extra_game) t = [KStr orig]
                      \<and> orig \<in> fst ` set (Game.options game)
                      \<and> orig \<notin> fst ` set (Game.options (fst res))))
             \<and> (first_time \<longrightarrow>
                  list_all2 (\<lambda>t t'. option_category t = g
                                 \<and> option_name t \<in> fst ` set (real_to_wrapped st) \<longrightarrow>
                               option_name t' \<in> fst ` set (Game.options (fst res)))
                    (Game.triggers game)
                    (take (length (Game.triggers game)) (Game.triggers (fst res))))))"
proof -
  let ?items = "filter is_weighted_item (Game.options game)"
  let ?go = "Game.options game"
  let ?go' = "Game.options (fst res)"
  obtain st gens where
    st: "create_wrapper_options extra_game
        (filter (\<lambda>item. is_WeightedOption (snd item)) (Game.options game)) r = Inr st"
    and len: "length gens = length ?items"
    and fresh: "fst ` set gens \<inter> fst ` set (ContextExtra.options extra_game) = {}"
    and ok: "list_all2 labels_ok ?items gens"
    and r2w: "real_to_wrapped st = zip (map fst ?items) (map fst gens)"
    and eo: "ContextExtra.options (extra st) = ContextExtra.options extra_game @ wrapped_options ?items gens"
    and trigs: "wrapper_triggers st = wrapped_triggers (game_name extra_game) ?items gens"
    and rep: "replace_options_loop (real_to_wrapped st) (ContextExtra.options (extra st)) ?go = Inr ?go'"
    and ex: "fst (snd res) = extra st"
    and first: "first_time \<longrightarrow> (\<exists>rewritten.
           rewrite_triggers_loop g (real_to_wrapped st) (ContextExtra.options (extra st))
             (Game.triggers game) = Inr rewritten
         \<and> Game.triggers (fst res) = rewritten @ wrapper_triggers st)"
    and later: "\<not> first_time \<longrightarrow> Game.triggers (fst res) = wrapper_triggers st @ Game.triggers game"
    using wrap_game_structure [OF w wf] by (elim exE conjE) (rule that, assumption+)
  have dgo: "distinct (map fst ?go)" using wf by (simp add: wf_options_def)
  have keys_r: "fst ` set (real_to_wrapped st) = fst ` set ?items"
    and vals_r: "snd ` set (real_to_wrapped st) = fst ` set gens"
    using zip_keys [of "map fst ?items" "map fst gens"] len by (simp_all add: r2w)
  have entries: "set ?go' \<subseteq> {p \<in> set ?go. fst p \<notin> fst ` set ?items}
            \<union> {p. fst p \<in> fst ` set gens \<and> map_of (ContextExtra.options (extra st)) (fst p) = Some (snd p)}"
    using replace_options_loop_entries [OF rep dgo] by (simp add: keys_r vals_r)
  have wrapper_entry: "p \<in> set (wrapped_options ?items gens)"
    if "fst p \<in> fst ` set gens" "map_of (ContextExtra.options (extra st)) (fst p) = Some (snd p)" for p
  proof -
    have "map_of (ContextExtra.options extra_game) (fst p) = None"
      using that(1) fresh by (auto simp: map_of_eq_None_iff)
    then have "map_of (wrapped_options ?items gens) (fst p) = Some (snd p)"
      using that(2) by (simp add: eo map_add_def)
    then show ?thesis by (metis map_of_SomeD prod.collapse)
  qed
  have wf': "wf_options ?go'"
    unfolding wf_options_def
  proof (intro conjI ballI)
    show "distinct (map fst ?go')" by (rule replace_options_loop_distinct [OF rep dgo])
  next
    fix p assume p: "p \<in> set ?go'"
    show "distinct (map fst (weights_of (snd p)))"
    proof (cases "p \<in> set ?go")
      case True
      then show ?thesis using wf by (simp add: wf_options_def)
    next
      case False
      then have "p \<in> set (wrapped_options ?items gens)"
        using entries p wrapper_entry by blast
      then show ?thesis using wrapped_options_labels ok by blast
    qed
  qed
  have known: "wrappers_known ?go' (fst (snd res))"
    unfolding wrappers_known_def
  proof (intro ballI impI)
    fix p assume p: "p \<in> set ?go'" and wp: "is_WeightedOption (snd p)"
    from entries p have "(p \<in> set ?go \<and> fst p \<notin> fst ` set ?items)
        \<or> map_of (ContextExtra.options (extra st)) (fst p) = Some (snd p)" by blast
    then show "fst p \<in> fst ` set (ContextExtra.options (fst (snd res)))"
    proof
      assume a: "p \<in> set ?go \<and> fst p \<notin> fst ` set ?items"
      then have "p \<in> set ?items" using wp by (simp add: is_weighted_item_def)
      then show ?thesis using a by blast
    next
      assume "map_of (ContextExtra.options (extra st)) (fst p) = Some (snd p)"
      then show ?thesis using ex by (metis map_of_SomeD fst_conv image_eqI)
    qed
  qed
  have sub: "set (wrapper_triggers st) \<subseteq> set (Game.triggers (fst res))"
    using first later by (cases first_time) auto
  have main: "(\<forall>t \<in> set (wrapper_triggers st).
                   option_name t \<in> fst ` set ?go'
                 \<and> (\<exists>orig. override_keys (game_name extra_game) t = [KStr orig]
                      \<and> orig \<in> fst ` set ?go \<and> orig \<notin> fst ` set ?go'))
             \<and> (first_time \<longrightarrow>
                  list_all2 (\<lambda>t t'. option_category t = g
                                 \<and> option_name t \<in> fst ` set (real_to_wrapped st) \<longrightarrow>
                               option_name t' \<in> fst ` set ?go')
                    (Game.triggers game)
                    (take (length (Game.triggers game)) (Game.triggers (fst res))))"
    if h: "wrappers_known ?go extra_game
               \<or> snd ` set (real_to_wrapped st) \<inter> fst ` set (real_to_wrapped st) = {}"
  proof -
    have nc: "snd ` set (real_to_wrapped st) \<inter> fst ` set (real_to_wrapped st) = {}"
      using h
    proof
      assume k: "wrappers_known ?go extra_game"
      have "fst ` set ?items \<subseteq> fst ` set (ContextExtra.options extra_game)"
        using k by (auto simp: wrappers_known_def is_weighted_item_def)
      then show ?thesis using fresh by (auto simp: keys_r vals_r)
    qed
    have keys: "fst ` set ?go' = (fst ` set ?go - fst ` set ?items) \<union> fst ` set gens"
      using replace_options_loop_keys [OF rep nc] by (simp add: keys_r vals_r)
    have a: "\<forall>t \<in> set (wrapper_triggers st).
                   option_name t \<in> fst ` set ?go'
                 \<and> (\<exists>orig. override_keys (game_name extra_game) t = [KStr orig]
                      \<and> orig \<in> fst ` set ?go \<and> orig \<notin> fst ` set ?go')"
    proof
      fix t assume t: "t \<in> set (wrapper_triggers st)"
      have n: "option_name t \<in> fst ` set gens"
        using t wrapped_triggers_names by (simp add: trigs)
      obtain orig where orig: "orig \<in> fst ` set ?items"
          "override_keys (game_name extra_game) t = [KStr orig]"
        using t wrapped_triggers_override unfolding trigs by blast
      have "orig \<notin> fst ` set gens" using nc orig(1) by (auto simp: keys_r vals_r)
      then have "orig \<notin> fst ` set ?go'" using orig(1) by (simp add: keys)
      moreover have "orig \<in> fst ` set ?go" using orig(1) by auto
      ultimately show "option_name t \<in> fst ` set ?go'
                 \<and> (\<exists>orig. override_keys (game_name extra_game) t = [KStr orig]
                      \<and> orig \<in> fst ` set ?go \<and> orig \<notin> fst ` set ?go')"
        using n orig(2) keys by blast
    qed
    have b: "first_time \<longrightarrow>
                  list_all2 (\<lambda>t t'. option_category t = g
                                 \<and> option_name t \<in> fst ` set (real_to_wrapped st) \<longrightarrow>
                               option_name t' \<in> fst ` set ?go')
                    (Game.triggers game)
                    (take (length (Game.triggers game)) (Game.triggers (fst res)))"
    proof
      assume first_time
      then obtain rewritten where
        rw: "rewrite_triggers_loop g (real_to_wrapped st) (ContextExtra.options (extra st))
             (Game.triggers game) = Inr rewritten"
        and tr: "Game.triggers (fst res) = rewritten @ wrapper_triggers st"
        using first by blast
      have la: "list_all2 (\<lambda>t t'. rewrite_trigger g (real_to_wrapped st)
                   (ContextExtra.options (extra st)) t = Inr t') (Game.triggers game) rewritten"
        by (rule rewrite_triggers_loop_result [OF rw])
      then have ln: "length rewritten = length (Game.triggers game)"
        by (simp add: list_all2_lengthD)
      have "list_all2 (\<lambda>t t'. option_category t = g
                                 \<and> option_name t \<in> fst ` set (real_to_wrapped st) \<longrightarrow>
                               option_name t' \<in> fst ` set ?go') (Game.triggers game) rewritten"
      proof (rule list_all2_mono [OF la])
        fix t t' assume rt: "rewrite_trigger g (real_to_wrapped st)
                   (ContextExtra.options (extra st)) t = Inr t'"
        show "option_category t = g \<and> option_name t \<in> fst ` set (real_to_wrapped st) \<longrightarrow>
                               option_name t' \<in> fst ` set ?go'"
        proof
          assume c: "option_category t = g \<and> option_name t \<in> fst ` set (real_to_wrapped st)"
          then have "map_of (real_to_wrapped st) (option_name t) = Some (option_name t')"
            using rewrite_trigger_name [OF rt] by blast
          then have "option_name t' \<in> snd ` set (real_to_wrapped st)"
            by (metis map_of_SomeD snd_conv image_eqI)
          then show "option_name t' \<in> fst ` set ?go'" by (simp add: keys vals_r)
        qed
      qed
      then show "list_all2 (\<lambda>t t'. option_category t = g
                                 \<and> option_name t \<in> fst ` set (real_to_wrapped st) \<longrightarrow>
                               option_name t' \<in> fst ` set ?go')
                    (Game.triggers game)
                    (take (length (Game.triggers game)) (Game.triggers (fst res)))"
        using ln by (simp add: tr)
    qed
    show ?thesis using a b by (rule conjI)
  qed
  show ?thesis
    by (intro conjI wf' known exI [of _ st]) (use st sub main in blast)+
qed

lemma spaces_neq: "replicate 20 (32::nat) \<noteq> [97]" "[97] \<noteq> replicate 20 (32::nat)"
  "replicate 22 (32::nat) \<noteq> [97]" "[97] \<noteq> replicate 22 (32::nat)"
  by (simp_all add: replicate_num)

lemma example_wrapper_pass1:
  "create_wrapper_options example_extra1
     (filter (\<lambda>item. is_WeightedOption (snd item)) (Game.options example_game1)) (rng_of_list [2])
     = Inr \<lparr>extra = example_extra2, real_to_wrapped = [(replicate 20 32, replicate 22 32)],
            wrapper_triggers =
              [wrapper_trigger [103] (replicate 20 32) (replicate 22 32) (replicate 20 32) (replicate 20 32)],
            wrapper_random = rng_of_list []\<rparr>"
  by (simp add: example_single_def create_wrapper_options_def
      generate_option_def WrappedWeightedOption_wrap_def example_names
      example_game1_def example_extra1_def example_wrapper1_def
      example_extra2_def example_wrapper2_def wrapper_trigger_def)

theorem wrap_game_trigger_targets_witness:
  "wrap_game example_game1 example_extra1 [103] False (rng_of_list [2])
     = Inr (example_game2, example_extra2, rng_of_list [])
 \<and> option_name (wrapper_trigger [103] (replicate 20 32) (replicate 22 32) (replicate 20 32) (replicate 20 32))
     \<in> fst ` set (Game.options example_game2)
 \<and> override_keys [103]
       (wrapper_trigger [103] (replicate 20 32) (replicate 22 32) (replicate 20 32) (replicate 20 32))
     = [KStr (replicate 20 32)]
 \<and> replicate 20 32 \<in> fst ` set (Game.options example_game1)
 \<and> replicate 20 32 \<notin> fst ` set (Game.options example_game2)"
proof -
  let ?T = "wrapper_trigger [103] (replicate 20 32) (replicate 22 32) (replicate 20 32) (replicate 20 32)"
  have wf1: "wf_options (Game.options example_game1)"
    by (simp add: wf_options_def example_game1_def example_wrapper1_def)
  have kn: "wrappers_known (Game.options example_game1) example_extra1"
    by (simp add: wrappers_known_def example_game1_def example_extra1_def)
  from wrap_game_trigger_targets [OF example_pass1 wf1]
  obtain st where s: "create_wrapper_options example_extra1
        (filter (\<lambda>item. is_WeightedOption (snd item)) (Game.options example_game1)) (rng_of_list [2]) = Inr st"
    and m: "wrappers_known (Game.options example_game1) example_extra1
               \<or> snd ` set (real_to_wrapped st) \<inter> fst ` set (real_to_wrapped st) = {} \<longrightarrow>
               (\<forall>t \<in> set (wrapper_triggers st).
                   option_name t \<in> fst ` set (Game.options (fst (example_game2, example_extra2, rng_of_list [])))
                 \<and> (\<exists>orig. override_keys (game_name example_extra1) t = [KStr orig]
                      \<and> orig \<in> fst ` set (Game.options example_game1)
                      \<and> orig \<notin> fst ` set (Game.options (fst (example_game2, example_extra2, rng_of_list [])))))
             \<and> (False \<longrightarrow>
                  list_all2 (\<lambda>t t'. option_category t = [103]
                                 \<and> option_name t \<in> fst ` set (real_to_wrapped st) \<longrightarrow>
                               option_name t' \<in> fst ` set (Game.options (fst (example_game2, example_extra2, rng_of_list []))))
                    (Game.triggers example_game1)
                    (take (length (Game.triggers example_game1)) (Game.triggers (fst (example_game2, example_extra2, rng_of_list [])))))"
    by (elim exE conjE) (rule that, assumption+)
  have "?T \<in> set (wrapper_triggers st)"
    using s by (auto simp: example_wrapper_pass1)
  then have "option_name ?T \<in> fst ` set (Game.options example_game2)
      \<and> (\<exists>orig. override_keys (game_name example_extra1) ?T = [KStr orig]
            \<and> orig \<in> fst ` set (Game.options example_game1)
            \<and> orig \<notin> fst ` set (Game.options example_game2))"
    using m kn by simp
  moreover have "override_keys [103] ?T = [KStr (replicate 20 32)]"
    by (simp add: override_keys_def wrapper_trigger_def)
  moreover have "game_name example_extra1 = [103]" by (simp add: example_extra1_def)
  ultimately show ?thesis using example_pass1 by auto
qed

text \<open>
  The claim C1 as stated fails on the example after the two passes of the engine: the
  output game has the single option named by 22 spaces, and none of its three triggers
  resolves. The trigger of the second pass overrides the first wrapper, which the
  second pass deleted; the two triggers of the first pass are gated by that deleted
  wrapper; and the original option \<open>a\<close> is not in the output.
\<close>

theorem engine_dangling_counterexample:
  "obfuscate_passes 2 (Context_init example_root) example_rng
     = Inr (example_context example_game2 example_extra2 2, rng_of_list [])
 \<and> games (root (example_context example_game2 example_extra2 2)) = [example_game2]
 \<and> Game.triggers example_game2 =
      [wrapper_trigger [103] (replicate 20 32) (replicate 22 32) (replicate 20 32) (replicate 20 32),
       example_rewritten,
       wrapper_trigger [103] [97] (replicate 20 32) (replicate 20 32) [120]]
 \<and> \<not> trigger_resolves example_game2
       (wrapper_trigger [103] (replicate 20 32) (replicate 22 32) (replicate 20 32) (replicate 20 32))
 \<and> \<not> trigger_resolves example_game2 example_rewritten
 \<and> \<not> trigger_resolves example_game2 (wrapper_trigger [103] [97] (replicate 20 32) (replicate 20 32) [120])
 \<and> [97] \<notin> fst ` set (Game.options example_game2)"
  by (simp add: example_run example_context_def example_game2_def trigger_resolves_def
      override_keys_def wrapper_trigger_def example_rewritten_def spaces_neq)

text \<open>
  Claim C5 fails on the code. \<open>generate_option\<close> asks for a name that is not among
  the keys of the \<open>ContextExtra\<close>, which holds only the wrappers generated so far,
  not the options of the game. Here the game has an option named by 20 spaces, the
  generator returns 20 spaces for the wrapper of \<open>a\<close>, and the wrapper overwrites
  that option.
\<close>

theorem wrapper_name_collision:
  "map_of (Game.options collision_game) (replicate 20 32) = Some (CustomOption (YList []))
 \<and> wrap_game collision_game (ContextExtra_new [103]) [103] True example_rng
     = Inr (\<lparr>Game.name = [103],
             Game.triggers = [wrapper_trigger [103] [97] (replicate 20 32) (replicate 20 32) [120]],
             Game.options = [(replicate 20 32, example_wrapper1)]\<rparr>,
            example_extra1, rng_of_list [2])"
  by (simp add: wrap_game_def collision_game_def example_single_def create_wrapper_options_def
      ContextExtra_new_def generate_option_def WrappedWeightedOption_wrap_def example_names
      dict_delitem_def dict_getitem_def example_extra1_def example_wrapper1_def
      wrapper_trigger_def spaces_neq)

























end
